theory Spec2Isabelle
  imports Complex_Main
begin

section \<open>The presto exporter: data model\<close>

text \<open>
  The exporter (\<^verbatim>\<open>presto_exporter.go\<close>) polls three endpoints of a Presto coordinator and
  turns the decoded JSON into Prometheus gauge samples. The model keeps the names of the
  Go source. Go's \<^verbatim>\<open>error\<close> interface is the datatype \<open>error\<close>; a variable of that type that
  may be \<^verbatim>\<open>nil\<close> is an \<open>error option\<close>, and a Go result pair \<^verbatim>\<open>(x, err)\<close> of which exactly one
  component is meaningful is a sum \<open>error + 'a\<close>.
\<close>

datatype error =
    errorString string
  | ErrSyntax
  | ErrRange
  | errInconsistentCardinality
  | errLabelValueNotUTF8 string

text \<open>
  The \<^verbatim>\<open>Error()\<close> method: the message of an error. The last error is the one the
  Prometheus client builds with \<^verbatim>\<open>fmt.Errorf("label value %q is not valid UTF-8", val)\<close>; it
  is kept with the value \<^verbatim>\<open>val\<close>, and its message, which quotes that value with the verb
  \<^verbatim>\<open>%q\<close>, is not given: the exporter never prints it.
\<close>

fun Error :: "error \<Rightarrow> string" where
  "Error (errorString s) = s"
| "Error ErrSyntax = ''invalid syntax''"
| "Error ErrRange = ''value out of range''"
| "Error errInconsistentCardinality = ''inconsistent label cardinality''"

text \<open>
  A \<^verbatim>\<open>float64\<close> is its exact value: a rational when it is finite and not the negative zero,
  or one of the four special values. The functions below only ever build \<open>Finite q\<close> for a
  \<open>q\<close> that the format can hold; a decoded JSON number is any such value.
\<close>

datatype float64 = Finite rat | NegZero | PosInf | NegInf | NaN

record Exporter =
  uri :: string

record ClusterExporter =
  RunningQueries :: float64
  BlockedQueries :: float64
  QueuedQueries :: float64
  ActiveWorkers :: float64
  RunningDrivers :: float64
  ReservedMemory :: float64
  TotalInputRows :: float64
  TotalInputBytes :: float64
  TotalCpuTimeSecs :: float64

record NodeVersion_t =
  Version :: string

record InfoExporter =
  NodeVersion :: NodeVersion_t
  Environment :: string
  Coordinator :: bool
  Starting :: bool
  Uptime :: string

record QueryStats_t =
  QueuedTime :: string
  ElapsedTime :: string
  ExecutionTime :: string
  TotalDrivers :: int
  RawInputDataSize :: string
  CumulativeUserMemory :: float64
  PeakUserMemoryReservation :: string
  TotalCpuTime :: string
  TotalScheduledTime :: string

record Query =
  QueryId :: string
  State :: string
  Scheduled :: bool
  Query :: string
  QueryStats :: QueryStats_t

record QueryExporter =
  Querys :: "Query list"

section \<open>The Go standard library functions the exporter calls\<close>

subsection \<open>strings\<close>

definition HasSuffix :: "string \<Rightarrow> string \<Rightarrow> bool" where
  "HasSuffix s suffix =
     (length suffix \<le> length s \<and> drop (length s - length suffix) s = suffix)"

definition TrimSuffix :: "string \<Rightarrow> string \<Rightarrow> string" where
  "TrimSuffix s suffix =
     (if HasSuffix s suffix then take (length s - length suffix) s else s)"

definition Join2 :: "string \<Rightarrow> string \<Rightarrow> string \<Rightarrow> string" where
  \<comment> \<open>\<^verbatim>\<open>strings.Join([]string{a, b}, sep)\<close>\<close>
  "Join2 a b sep = a @ sep @ b"

definition Join3 :: "string \<Rightarrow> string \<Rightarrow> string \<Rightarrow> string \<Rightarrow> string" where
  \<comment> \<open>\<^verbatim>\<open>strings.Join([]string{a, b, c}, sep)\<close>\<close>
  "Join3 a b c sep = a @ sep @ b @ sep @ c"

subsection \<open>unicode/utf8\<close>

text \<open>
  A Go string is a sequence of bytes, here a list of 8-bit characters. \<^verbatim>\<open>utf8.ValidString\<close>
  reports whether the bytes are entirely valid UTF-8: bytes below \<^verbatim>\<open>0x80\<close> stand alone, a
  lead byte \<^verbatim>\<open>0xC2\<close> to \<^verbatim>\<open>0xDF\<close> takes one continuation byte (\<^verbatim>\<open>0x80\<close> to \<^verbatim>\<open>0xBF\<close>), \<^verbatim>\<open>0xE0\<close>
  to \<^verbatim>\<open>0xEF\<close> two and \<^verbatim>\<open>0xF0\<close> to \<^verbatim>\<open>0xF4\<close> three, the first continuation byte being further
  restricted after \<^verbatim>\<open>0xE0\<close>, \<^verbatim>\<open>0xED\<close>, \<^verbatim>\<open>0xF0\<close> and \<^verbatim>\<open>0xF4\<close> (no overlong form, no surrogate,
  nothing above \<^verbatim>\<open>U+10FFFF\<close>); every other byte is invalid.
\<close>

definition inRange :: "nat \<Rightarrow> nat \<Rightarrow> char \<Rightarrow> bool" where
  "inRange lo hi c = (lo \<le> of_char c \<and> (of_char c :: nat) \<le> hi)"

fun ValidString :: "string \<Rightarrow> bool" where
  "ValidString [] = True"
| "ValidString (c # s) =
     (let b = (of_char c :: nat)
      in if b < 0x80 then ValidString s
         else if 0xC2 \<le> b \<and> b \<le> 0xDF then
           (case s of c1 # s1 \<Rightarrow> inRange 0x80 0xBF c1 \<and> ValidString s1 | _ \<Rightarrow> False)
         else if 0xE0 \<le> b \<and> b \<le> 0xEF then
           (case s of
              c1 # c2 # s2 \<Rightarrow>
                inRange (if b = 0xE0 then 0xA0 else 0x80) (if b = 0xED then 0x9F else 0xBF) c1 \<and>
                inRange 0x80 0xBF c2 \<and> ValidString s2
            | _ \<Rightarrow> False)
         else if 0xF0 \<le> b \<and> b \<le> 0xF4 then
           (case s of
              c1 # c2 # c3 # s3 \<Rightarrow>
                inRange (if b = 0xF0 then 0x90 else 0x80) (if b = 0xF4 then 0x8F else 0xBF) c1 \<and>
                inRange 0x80 0xBF c2 \<and> inRange 0x80 0xBF c3 \<and> ValidString s3
            | _ \<Rightarrow> False)
         else False)"

subsection \<open>strconv: booleans and integers\<close>

definition FormatBool :: "bool \<Rightarrow> string" where
  "FormatBool b = (if b then ''true'' else ''false'')"

definition digitChar :: "int \<Rightarrow> char" where
  "digitChar d = ''0123456789'' ! nat d"

function digitsOf :: "int \<Rightarrow> string" where
  "digitsOf n = (if n < 10 then [digitChar n] else digitsOf (n div 10) @ [digitChar (n mod 10)])"
  by pat_completeness auto
termination
  by (relation "measure nat") auto

declare digitsOf.simps [simp del]

definition Itoa :: "int \<Rightarrow> string" where
  "Itoa i = (if i < 0 then ''-'' @ digitsOf (- i) else digitsOf i)"

subsection \<open>strconv.ParseFloat\<close>

text \<open>
  \<^verbatim>\<open>ParseFloat(s, bitSize)\<close> as the Go documentation states it, for the decimal grammar of the
  Go release that \<^verbatim>\<open>go.mod\<close> names (1.12): an optional sign, decimal digits with at most one
  point and at least one digit, an optional decimal exponent, or one of the words
  \<^verbatim>\<open>inf\<close>, \<^verbatim>\<open>infinity\<close>, \<^verbatim>\<open>nan\<close> in any case. The result is the nearest floating-point
  number of the given size under IEEE 754 round-half-even, returned as a \<^verbatim>\<open>float64\<close>.
  A string that is not well formed gives \<open>0\<close> and \<open>ErrSyntax\<close>; a well formed one beyond the
  largest number of that size gives an infinity and \<open>ErrRange\<close>.
\<close>

definition isDigit :: "char \<Rightarrow> bool" where
  "isDigit c = (c \<in> set ''0123456789'')"

definition digitVal :: "char \<Rightarrow> int" where
  "digitVal c =
     (case map_of (zip ''0123456789'' [0, 1, 2, 3, 4, 5, 6, 7, 8, 9]) c of
        Some d \<Rightarrow> d
      | None \<Rightarrow> 0)"

definition lower :: "char \<Rightarrow> char" where
  "lower c =
     (case map_of (zip ''ABCDEFGHIJKLMNOPQRSTUVWXYZ'' ''abcdefghijklmnopqrstuvwxyz'') c of
        Some l \<Rightarrow> l
      | None \<Rightarrow> c)"

definition equalIgnoreCase :: "string \<Rightarrow> string \<Rightarrow> bool" where
  "equalIgnoreCase s1 s2 = (map lower s1 = map lower s2)"

definition special :: "string \<Rightarrow> float64 option" where
  "special s =
     (case s of
        [] \<Rightarrow> None
      | c # _ \<Rightarrow>
          if c = CHR ''+'' then
            (if equalIgnoreCase s ''+inf'' \<or> equalIgnoreCase s ''+infinity''
             then Some PosInf else None)
          else if c = CHR ''-'' then
            (if equalIgnoreCase s ''-inf'' \<or> equalIgnoreCase s ''-infinity''
             then Some NegInf else None)
          else if c = CHR ''n'' \<or> c = CHR ''N'' then
            (if equalIgnoreCase s ''nan'' then Some NaN else None)
          else if c = CHR ''i'' \<or> c = CHR ''I'' then
            (if equalIgnoreCase s ''inf'' \<or> equalIgnoreCase s ''infinity''
             then Some PosInf else None)
          else None)"

fun decimalVal :: "int \<Rightarrow> string \<Rightarrow> int" where
  "decimalVal acc [] = acc"
| "decimalVal acc (c # cs) = decimalVal (acc * 10 + digitVal c) cs"

text \<open>The exponent loop stops accumulating once the exponent has reached 10000.\<close>

fun expVal :: "int \<Rightarrow> string \<Rightarrow> int" where
  "expVal e [] = e"
| "expVal e (c # cs) = expVal (if e < 10000 then e * 10 + digitVal c else e) cs"

definition readExponent :: "string \<Rightarrow> int option" where
  "readExponent s =
     (case s of
        [] \<Rightarrow> Some 0
      | c # r \<Rightarrow>
          if c = CHR ''e'' \<or> c = CHR ''E'' then
            (let esign = (case r of x # _ \<Rightarrow> if x = CHR ''-'' then - 1 else (1::int) | [] \<Rightarrow> 1);
                 r' = (case r of x # t \<Rightarrow> if x = CHR ''+'' \<or> x = CHR ''-'' then t else r | [] \<Rightarrow> r)
             in if r' = [] \<or> \<not> list_all isDigit r' then None
                else Some (esign * expVal 0 r'))
          else None)"

text \<open>
  \<open>readFloat s\<close> is \<open>None\<close> when \<open>s\<close> is not well formed, and otherwise the sign, the
  decimal mantissa and the decimal exponent: the number read is \<open>mantissa * 10 ^ exponent\<close>.
\<close>

definition readFloat :: "string \<Rightarrow> (bool \<times> int \<times> int) option" where
  "readFloat s =
     (if s = [] then None
      else
        let neg = (hd s = CHR ''-'');
            r = (if hd s = CHR ''+'' \<or> hd s = CHR ''-'' then tl s else s);
            ip = takeWhile isDigit r;
            r1 = dropWhile isDigit r;
            sawdot = (r1 \<noteq> [] \<and> hd r1 = CHR ''.'');
            fp = (if sawdot then takeWhile isDigit (tl r1) else []);
            r2 = (if sawdot then dropWhile isDigit (tl r1) else r1)
        in if ip = [] \<and> fp = [] then None
           else case readExponent r2 of
                  None \<Rightarrow> None
                | Some e \<Rightarrow> Some (neg, decimalVal 0 (ip @ fp), e - int (length fp)))"

record floatInfo =
  mantbits :: nat
  expbits :: nat
  bias :: int

definition float32info :: floatInfo where
  "float32info = \<lparr>mantbits = 23, expbits = 8, bias = - 127\<rparr>"

definition float64info :: floatInfo where
  "float64info = \<lparr>mantbits = 52, expbits = 11, bias = - 1023\<rparr>"

function log2floor :: "int \<Rightarrow> int" where
  "log2floor n = (if n < 2 then 0 else 1 + log2floor (n div 2))"
  by pat_completeness auto
termination
  by (relation "measure nat") auto

declare log2floor.simps [simp del]

text \<open>\<open>roundHalfEven a b\<close>: the integer nearest to \<open>a / b\<close>, a tie going to the even one.\<close>

definition roundHalfEven :: "int \<Rightarrow> int \<Rightarrow> int" where
  "roundHalfEven a b =
     (let f = a div b; r = a mod b
      in if 2 * r < b then f
         else if b < 2 * r then f + 1
         else if even f then f else f + 1)"

text \<open>\<open>binExp a b\<close>: the binary exponent \<open>e\<close> of \<open>a / b\<close>, with \<open>2 ^ e \<le> a / b < 2 ^ (e + 1)\<close>.\<close>

definition binExp :: "int \<Rightarrow> int \<Rightarrow> int" where
  "binExp a b =
     (let k = log2floor a - log2floor b
      in if (if 0 \<le> k then b * 2 ^ nat k \<le> a else b \<le> a * 2 ^ nat (- k)) then k else k - 1)"

text \<open>
  \<open>roundFloat flt a b\<close> rounds the non-negative fraction \<open>a / b\<close> to the format \<open>flt\<close>:
  \<open>Some (mant, u)\<close> is the number \<open>mant * 2 ^ u\<close> (subnormal when the exponent is the least
  one), \<open>None\<close> is overflow.
\<close>

definition roundFloat :: "floatInfo \<Rightarrow> int \<Rightarrow> int \<Rightarrow> (int \<times> int) option" where
  "roundFloat flt a b =
     (if a = 0 then Some (0, 0)
      else
        let e = binExp a b;
            emin = bias flt + 1;
            emax = 2 ^ expbits flt - 2 + bias flt;
            u = max e emin - int (mantbits flt);
            n = (if 0 \<le> u then roundHalfEven a (b * 2 ^ nat u)
                 else roundHalfEven (a * 2 ^ nat (- u)) b);
            carry = (n = 2 ^ (mantbits flt + 1));
            mant = (if carry then 2 ^ mantbits flt else n);
            u' = (if carry then u + 1 else u)
        in if emax < u' + int (mantbits flt) then None
           else Some (mant, u'))"

definition scaled :: "int \<Rightarrow> int \<Rightarrow> rat" where
  "scaled n u = (if 0 \<le> u then of_int n * 2 ^ nat u else of_int n / 2 ^ nat (- u))"

definition floatOf :: "bool \<Rightarrow> (int \<times> int) option \<Rightarrow> float64" where
  "floatOf neg r =
     (case r of
        None \<Rightarrow> (if neg then NegInf else PosInf)
      | Some (n, u) \<Rightarrow>
          if n = 0 then (if neg then NegZero else Finite 0)
          else Finite (if neg then - scaled n u else scaled n u))"

definition ParseFloat :: "string \<Rightarrow> nat \<Rightarrow> float64 \<times> error option" where
  "ParseFloat s bitSize =
     (case special s of
        Some v \<Rightarrow> (v, None)
      | None \<Rightarrow>
          (case readFloat s of
             None \<Rightarrow> (Finite 0, Some ErrSyntax)
           | Some (neg, mant, e10) \<Rightarrow>
               let flt = (if bitSize = 32 then float32info else float64info);
                   r = (if 0 \<le> e10 then roundFloat flt (mant * 10 ^ nat e10) 1
                        else roundFloat flt mant (10 ^ nat (- e10)))
               in (floatOf neg r, if r = None then Some ErrRange else None)))"

subsection \<open>strconv.FormatFloat\<close>

text \<open>
  \<^verbatim>\<open>FormatFloat(f, 'E', -1, bitSize)\<close>, the one format the exporter asks for. The value is
  first converted to the size \<open>bitSize\<close> (\<^verbatim>\<open>float32(f)\<close> for 32, which rounds and may
  overflow to an infinity), and precision \<open>-1\<close> asks for the smallest number of digits
  that identify that number uniquely: the shortest decimal inside the interval of reals
  that round to it, and among those of that length the nearest to it. The text is
  \<^verbatim>\<open>[-]d.ddddE+dd\<close>; an infinity is \<^verbatim>\<open>+Inf\<close> or \<^verbatim>\<open>-Inf\<close>, a NaN is \<^verbatim>\<open>NaN\<close>.
\<close>

function leadShift :: "int \<Rightarrow> int \<Rightarrow> int" where
  "leadShift a b = (if a \<le> 0 \<or> b \<le> a then 0 else 1 + leadShift (a * 10) b)"
  by pat_completeness auto
termination
  by (relation "measure (\<lambda>(a, b). nat (b - a))") auto

declare leadShift.simps [simp del]

text \<open>
  \<open>leadShift a b\<close> is the least \<open>j\<close> with \<open>b \<le> a * 10 ^ j\<close>, and \<open>decimalPoint a b\<close> is the
  decimal exponent \<open>dp\<close> of \<open>a / b\<close>, with \<open>10 ^ (dp - 1) \<le> a / b < 10 ^ dp\<close>: the number of
  digits before the point when \<open>1 \<le> a / b\<close>, and minus the number of zeros between the
  point and the first digit otherwise.
\<close>

definition decimalPoint :: "int \<Rightarrow> int \<Rightarrow> int" where
  "decimalPoint a b =
     (if b \<le> a then int (length (digitsOf (a div b))) else - leadShift (a * 10) b)"

text \<open>
  The number is \<open>X * P / Q\<close> and the reals that round to it are those between
  \<open>L * P / Q\<close> and \<open>U * P / Q\<close> (the ends included when \<open>inclusive\<close>). \<open>tryDigits\<close> looks
  for a multiple \<open>c * 10 ^ k\<close> of \<open>10 ^ k\<close> in that interval, next below or next above the
  number; \<open>force\<close> takes the nearest multiple whether it is inside or not.
\<close>

definition tryDigits ::
  "int \<Rightarrow> int \<Rightarrow> int \<Rightarrow> int \<Rightarrow> int \<Rightarrow> bool \<Rightarrow> int \<Rightarrow> bool \<Rightarrow> int option" where
  "tryDigits L X U P Q inclusive k force =
     (let m = (if k < 0 then 10 ^ nat (- k) else 1);
          B = Q * (if 0 \<le> k then 10 ^ nat k else 1);
          AL = L * P * m; AX = X * P * m; AU = U * P * m;
          c = AX div B; r = AX mod B;
          okdown = ((AL < c * B \<and> c * B < AU) \<or> (inclusive \<and> (c * B = AL \<or> c * B = AU)));
          okup = ((AL < (c + 1) * B \<and> (c + 1) * B < AU) \<or>
                  (inclusive \<and> ((c + 1) * B = AL \<or> (c + 1) * B = AU)));
          nearest = (if 2 * r < B then c else if B < 2 * r then c + 1
                     else if even c then c else c + 1)
      in if force \<or> (okdown \<and> okup) then Some nearest
         else if okdown then Some c
         else if okup then Some (c + 1)
         else None)"

text \<open>
  One more digit at each round, from \<open>nd\<close> digits on; the last round (no fuel left) is at
  the number of digits that always identifies a number of the format, and is forced.
\<close>

fun shortestLoop ::
  "nat \<Rightarrow> int \<Rightarrow> int \<Rightarrow> int \<Rightarrow> int \<Rightarrow> int \<Rightarrow> int \<Rightarrow> bool \<Rightarrow> int \<Rightarrow> int \<times> int" where
  "shortestLoop 0 nd L X U P Q inclusive dp =
     (case tryDigits L X U P Q inclusive (dp - nd) True of
        Some c \<Rightarrow> (c, dp - nd)
      | None \<Rightarrow> (0, 0))"
| "shortestLoop (Suc fuel) nd L X U P Q inclusive dp =
     (case tryDigits L X U P Q inclusive (dp - nd) False of
        Some c \<Rightarrow> (c, dp - nd)
      | None \<Rightarrow> shortestLoop fuel (nd + 1) L X U P Q inclusive dp)"

definition maxDigits :: "floatInfo \<Rightarrow> nat" where
  "maxDigits flt = (if mantbits flt = 23 then 9 else 17)"

text \<open>
  \<open>roundShortest flt mant u\<close>: the shortest decimal \<open>c * 10 ^ k\<close> for the number
  \<open>mant * 2 ^ u\<close> of the format. The upper bound is halfway to the next number above,
  the lower bound halfway to the next number below, which is nearer when \<open>mant\<close> is the
  least mantissa of a binade other than the lowest.
\<close>

definition roundShortest :: "floatInfo \<Rightarrow> int \<Rightarrow> int \<Rightarrow> int \<times> int" where
  "roundShortest flt mant u =
     (let minexp = bias flt + 1;
          L = (if 2 ^ mantbits flt < mant \<or> u + int (mantbits flt) = minexp
               then 4 * mant - 2 else 4 * mant - 1);
          X = 4 * mant;
          U = 4 * mant + 2;
          w = u - 2;
          P = (if 0 \<le> w then 2 ^ nat w else 1);
          Q = (if w < 0 then 2 ^ nat (- w) else 1);
          dp = decimalPoint (X * P) Q
      in shortestLoop (maxDigits flt - 1) 1 L X U P Q (even mant) dp)"

definition stripZeros :: "string \<Rightarrow> string" where
  "stripZeros ds = rev (dropWhile (\<lambda>c. c = CHR ''0'') (rev ds))"

text \<open>\<^verbatim>\<open>%e\<close>: the digits \<open>d\<close>, the decimal exponent \<open>ex\<close> of the first digit, the letter \<open>fmt\<close>.\<close>

definition fmtE :: "bool \<Rightarrow> string \<Rightarrow> int \<Rightarrow> char \<Rightarrow> string" where
  "fmtE neg d ex fmt =
     (if neg then ''-'' else []) @
     [if d = [] then CHR ''0'' else hd d] @
     (if 1 < length d then ''.'' @ tl d else []) @
     [fmt] @
     (if ex < 0 then ''-'' else ''+'') @
     (if \<bar>ex\<bar> < 10 then [CHR ''0'', digitChar \<bar>ex\<bar>]
      else if \<bar>ex\<bar> < 100 then [digitChar (\<bar>ex\<bar> div 10), digitChar (\<bar>ex\<bar> mod 10)]
      else [digitChar (\<bar>ex\<bar> div 100), digitChar (\<bar>ex\<bar> div 10 mod 10), digitChar (\<bar>ex\<bar> mod 10)])"

definition FormatFloatE :: "float64 \<Rightarrow> nat \<Rightarrow> string" where
  "FormatFloatE f bitSize =
     (case f of
        NaN \<Rightarrow> ''NaN''
      | PosInf \<Rightarrow> ''+Inf''
      | NegInf \<Rightarrow> ''-Inf''
      | NegZero \<Rightarrow> fmtE True [] 0 CHR ''E''
      | Finite q \<Rightarrow>
          let flt = (if bitSize = 32 then float32info else float64info);
              neg = (q < 0);
              (a, b) = quotient_of \<bar>q\<bar>
          in case roundFloat flt a b of
               None \<Rightarrow> (if neg then ''-Inf'' else ''+Inf'')
             | Some (mant, u) \<Rightarrow>
                 if mant = 0 then fmtE neg [] 0 CHR ''E''
                 else let (c, k) = roundShortest flt mant u;
                          ds = digitsOf c
                      in fmtE neg (stripZeros ds) (k + int (length ds) - 1) CHR ''E'')"

section \<open>The Prometheus client library: descriptors and constant metrics\<close>

text \<open>
  A \<^verbatim>\<open>Desc\<close> holds the fully qualified name, the help string and the names of the variable
  labels (the exporter passes no constant labels). A constant metric holds its descriptor,
  its type, its value and one label value for each variable label.
\<close>

record Desc =
  fqName :: string
  help' :: string
  variableLabels :: "string list"

datatype ValueType = CounterValue | GaugeValue | UntypedValue

record Metric =
  desc :: Desc
  valType :: ValueType
  val :: float64
  labelValues :: "string list"

definition BuildFQName :: "string \<Rightarrow> string \<Rightarrow> string \<Rightarrow> string" where
  "BuildFQName namespace subsystem name =
     (if name = [] then []
      else if namespace \<noteq> [] \<and> subsystem \<noteq> [] then Join3 namespace subsystem name ''_''
      else if namespace \<noteq> [] then Join2 namespace name ''_''
      else if subsystem \<noteq> [] then Join2 subsystem name ''_''
      else name)"

definition NewDesc :: "string \<Rightarrow> string \<Rightarrow> string list \<Rightarrow> Desc" where
  "NewDesc fq h labels = \<lparr>fqName = fq, help' = h, variableLabels = labels\<rparr>"

text \<open>
  \<^verbatim>\<open>NewConstMetric\<close> validates the label values (\<^verbatim>\<open>validateLabelValues\<close>): it refuses a
  number of label values other than the descriptor's number of variable labels, and it
  refuses a label value that is not valid UTF-8, reporting the first such value.
  \<^verbatim>\<open>MustNewConstMetric\<close> panics on either error. The panic is the \<open>Inl\<close> result.
\<close>

definition validateLabelValues :: "string list \<Rightarrow> nat \<Rightarrow> error option" where
  "validateLabelValues vals expectedNumberOfValues =
     (if length vals \<noteq> expectedNumberOfValues then Some errInconsistentCardinality
      else case find (\<lambda>v. \<not> ValidString v) vals of
             Some v \<Rightarrow> Some (errLabelValueNotUTF8 v)
           | None \<Rightarrow> None)"

definition NewConstMetric :: "Desc \<Rightarrow> ValueType \<Rightarrow> float64 \<Rightarrow> string list \<Rightarrow> error + Metric" where
  "NewConstMetric d vt v lvs =
     (case validateLabelValues lvs (length (variableLabels d)) of
        Some err \<Rightarrow> Inl err
      | None \<Rightarrow> Inr \<lparr>desc = d, valType = vt, val = v, labelValues = lvs\<rparr>)"

definition MustNewConstMetric :: "Desc \<Rightarrow> ValueType \<Rightarrow> float64 \<Rightarrow> string list \<Rightarrow> error + Metric" where
  "MustNewConstMetric d vt v lvs = NewConstMetric d vt v lvs"

section \<open>The exporter\<close>

definition namespace :: string where
  "namespace = ''presto_cluster''"

text \<open>
  \<^verbatim>\<open>var hostname, _ = os.Hostname()\<close>: the package variable is set once, when the package
  is initialised, from the name the operating system reports; the error is dropped.
\<close>

record globals =
  hostname :: string

definition init_globals :: "string \<times> error option \<Rightarrow> globals" where
  "init_globals os_Hostname_result = \<lparr>hostname = fst os_Hostname_result\<rparr>"

definition runningQueries :: Desc where
  "runningQueries = NewDesc (BuildFQName namespace [] ''running_queries'')
     ''Running requests of the presto cluster.'' [''hostname'']"

definition blockedQueries :: Desc where
  "blockedQueries = NewDesc (BuildFQName namespace [] ''blocked_queries'')
     ''Blocked queries of the presto cluster.'' [''hostname'']"

definition queuedQueries :: Desc where
  "queuedQueries = NewDesc (BuildFQName namespace [] ''queued_queries'')
     ''Queued queries of the presto cluster.'' [''hostname'']"

definition activeWorkers :: Desc where
  "activeWorkers = NewDesc (BuildFQName namespace [] ''active_workers'')
     ''Active workers of the presto cluster.'' [''hostname'']"

definition runningDrivers :: Desc where
  "runningDrivers = NewDesc (BuildFQName namespace [] ''running_drivers'')
     ''Running drivers of the presto cluster.'' [''hostname'']"

definition reservedMemory :: Desc where
  "reservedMemory = NewDesc (BuildFQName namespace [] ''reserved_memory'')
     ''Reserved memory of the presto cluster.'' [''hostname'']"

definition totalInputRows :: Desc where
  "totalInputRows = NewDesc (BuildFQName namespace [] ''total_input_rows'')
     ''Total input rows of the presto cluster.'' [''hostname'']"

definition totalInputBytes :: Desc where
  "totalInputBytes = NewDesc (BuildFQName namespace [] ''total_input_bytes'')
     ''Total input bytes of the presto cluster.'' [''hostname'']"

definition totalCpuTimeSecs :: Desc where
  "totalCpuTimeSecs = NewDesc (BuildFQName namespace [] ''total_cpu_time_secs'')
     ''Total cpu time of the presto cluster.'' [''hostname'']"

definition uptime :: Desc where
  "uptime = NewDesc (BuildFQName namespace [] ''uptime'')
     ''Total up time of the presto cluster.'' [''hostname'']"

definition querys :: Desc where
  "querys = NewDesc (BuildFQName namespace [] ''querys'')
     ''Querys of the presto cluster.''
     [''hostname'', ''queryId'', ''state'', ''scheduled'', ''query'', ''queuedTime'',
      ''elapsedTime'', ''executionTime'', ''totalDrivers'', ''rawInputDataSize'',
      ''cumulativeUserMemory'', ''PeakUserMemoryReservation'', ''totalCpuTime'',
      ''totalScheduledTime'']"

text \<open>\<^verbatim>\<open>Describe\<close> sends the eleven descriptors on its channel, in this order.\<close>

definition Exporter_Describe :: "Exporter \<Rightarrow> Desc list \<Rightarrow> Desc list" where
  "Exporter_Describe e ch =
     ch @ [runningQueries] @ [blockedQueries] @ [queuedQueries] @ [activeWorkers] @
     [runningDrivers] @ [reservedMemory] @ [totalInputRows] @ [totalInputBytes] @
     [totalCpuTimeSecs] @ [uptime] @ [querys]"

subsection \<open>What a scrape sees and what it leaves behind\<close>

text \<open>
  Everything \<^verbatim>\<open>Collect\<close> reads from outside the process is a field of \<open>world\<close>:
  \<open>http_Get\<close> is the outcome of \<^verbatim>\<open>http.Get\<close> for a URL (a transport error or a response),
  a response has its status code and the outcome of \<^verbatim>\<open>ioutil.ReadAll\<close> on its body, and
  the three \<open>json_Unmarshal\<close> fields are \<^verbatim>\<open>json.Unmarshal\<close> into a fresh value of each
  of the three shapes (the JSON decoder itself is not modelled). \<open>os_Hostname\<close> is what
  \<^verbatim>\<open>os.Hostname()\<close> would answer at that moment.
\<close>

record Response =
  StatusCode :: int
  Body :: "error + string"

record world =
  http_Get :: "string \<Rightarrow> error + Response"
  json_Unmarshal_ClusterExporter :: "string \<Rightarrow> error + ClusterExporter"
  json_Unmarshal_InfoExporter :: "string \<Rightarrow> error + InfoExporter"
  json_Unmarshal_Querys :: "string \<Rightarrow> error + Query list"
  os_Hostname :: "string \<times> error option"

text \<open>
  What it leaves behind: the URLs it asked for, in order; the lines it logged; and the
  metrics it sent on the channel \<open>ch\<close>.
\<close>

datatype Level = ErrorLevel | InfoLevel

record entry =
  level :: Level
  msg :: string

record state =
  requests :: "string list"
  logged :: "entry list"
  ch :: "Metric list"

text \<open>
  \<^verbatim>\<open>log.Errorf("%s", err)\<close>: the verb \<^verbatim>\<open>%s\<close> prints the message of an error, and prints
  \<^verbatim>\<open>%!s(<nil>)\<close> for a nil one.
\<close>

definition Sprintf_s :: "error option \<Rightarrow> string" where
  "Sprintf_s err = (case err of None \<Rightarrow> ''%!s(<nil>)'' | Some e \<Rightarrow> Error e)"

definition log_Errorf_s :: "error option \<Rightarrow> state \<Rightarrow> state" where
  "log_Errorf_s err s = s\<lparr>logged := logged s @ [\<lparr>level = ErrorLevel, msg = Sprintf_s err\<rparr>]\<rparr>"

definition do_Get :: "string \<Rightarrow> state \<Rightarrow> state" where
  \<comment> \<open>the request that \<^verbatim>\<open>http.Get(url)\<close> makes\<close>
  "do_Get url s = s\<lparr>requests := requests s @ [url]\<rparr>"

text \<open>\<^verbatim>\<open>ch <- prometheus.MustNewConstMetric(...)\<close>: a panic ends the function with \<open>Inl\<close>.\<close>

definition send :: "error + Metric \<Rightarrow> state \<Rightarrow> error + state" where
  "send r s = (case r of Inl p \<Rightarrow> Inl p | Inr m \<Rightarrow> Inr (s\<lparr>ch := ch s @ [m]\<rparr>))"

text \<open>Statements one after the other, until one panics.\<close>

fun statements :: "(state \<Rightarrow> error + state) list \<Rightarrow> state \<Rightarrow> error + state" where
  "statements [] s = Inr s"
| "statements (f # fs) s = (case f s of Inl p \<Rightarrow> Inl p | Inr s' \<Rightarrow> statements fs s')"

text \<open>The body of the loop \<^verbatim>\<open>for _, v := range queryExporter.Querys\<close>.\<close>

definition labels :: "globals \<Rightarrow> Query \<Rightarrow> string list" where
  "labels g v =
     [hostname g,
      QueryId v,
      State v,
      FormatBool (Scheduled v),
      Query v,
      QueuedTime (QueryStats v),
      ElapsedTime (QueryStats v),
      ExecutionTime (QueryStats v),
      Itoa (TotalDrivers (QueryStats v)),
      RawInputDataSize (QueryStats v),
      FormatFloatE (CumulativeUserMemory (QueryStats v)) 32,
      PeakUserMemoryReservation (QueryStats v),
      TotalCpuTime (QueryStats v),
      TotalScheduledTime (QueryStats v)]"

fun range_Querys :: "globals \<Rightarrow> Query list \<Rightarrow> state \<Rightarrow> error + state" where
  "range_Querys g [] s = Inr s"
| "range_Querys g (v # vs) s =
     (case send (MustNewConstMetric querys GaugeValue (CumulativeUserMemory (QueryStats v))
                   (labels g v)) s of
        Inl p \<Rightarrow> Inl p
      | Inr s' \<Rightarrow> range_Querys g vs s')"

text \<open>
  \<^verbatim>\<open>Collect\<close>. Each stage asks for its URL, checks the transport error, the status code,
  the error of reading the body and the error of decoding it, and on each of the four logs
  \<^verbatim>\<open>err\<close> and returns. After a successful \<^verbatim>\<open>http.Get\<close> the variable \<^verbatim>\<open>err\<close> is nil, and it
  is that nil that the status branch logs. The result is \<open>Inr\<close> when the function
  returns and \<open>Inl\<close> when it panics. The body of the Go function is given in four parts,
  cut at its own comments \<^verbatim>\<open>// cluster\<close>, \<^verbatim>\<open>// info\<close> and \<^verbatim>\<open>// query\<close> and at the first
  send; each part ends by running the next one.
\<close>

definition Collect_send ::
  "globals \<Rightarrow> ClusterExporter \<Rightarrow> InfoExporter \<Rightarrow> QueryExporter \<Rightarrow> state \<Rightarrow> error + state" where
  "Collect_send g clusterExporter infoExporter queryExporter s =
     (let uptimeF = fst (ParseFloat (TrimSuffix (Uptime infoExporter) ''d'') 32)
      in
      case statements
        [send (MustNewConstMetric runningQueries GaugeValue (RunningQueries clusterExporter) [hostname g]),
         send (MustNewConstMetric blockedQueries GaugeValue (BlockedQueries clusterExporter) [hostname g]),
         send (MustNewConstMetric queuedQueries GaugeValue (QueuedQueries clusterExporter) [hostname g]),
         send (MustNewConstMetric activeWorkers GaugeValue (ActiveWorkers clusterExporter) [hostname g]),
         send (MustNewConstMetric runningDrivers GaugeValue (RunningDrivers clusterExporter) [hostname g]),
         send (MustNewConstMetric reservedMemory GaugeValue (ReservedMemory clusterExporter) [hostname g]),
         send (MustNewConstMetric totalInputRows GaugeValue (TotalInputRows clusterExporter) [hostname g]),
         send (MustNewConstMetric totalInputBytes GaugeValue (TotalInputBytes clusterExporter) [hostname g]),
         send (MustNewConstMetric totalCpuTimeSecs GaugeValue (TotalCpuTimeSecs clusterExporter) [hostname g]),
         send (MustNewConstMetric uptime GaugeValue uptimeF [hostname g])] s of
        Inl p \<Rightarrow> Inl p
      | Inr s' \<Rightarrow> range_Querys g (Querys queryExporter) s')"

definition Collect_query ::
  "globals \<Rightarrow> Exporter \<Rightarrow> world \<Rightarrow> ClusterExporter \<Rightarrow> InfoExporter \<Rightarrow> state \<Rightarrow> error + state" where
  "Collect_query g e w clusterExporter infoExporter s =
     (let s3 = do_Get (uri e @ ''/v1/query'') s in
      case http_Get w (uri e @ ''/v1/query'') of
        Inl err \<Rightarrow> Inr (log_Errorf_s (Some err) s3)
      | Inr queryResp \<Rightarrow>
      if StatusCode queryResp \<noteq> 200 then Inr (log_Errorf_s None s3)
      else
      case Body queryResp of
        Inl err \<Rightarrow> Inr (log_Errorf_s (Some err) s3)
      | Inr queryBody \<Rightarrow>
      case json_Unmarshal_Querys w queryBody of
        Inl err \<Rightarrow> Inr (log_Errorf_s (Some err) s3)
      | Inr qs \<Rightarrow> Collect_send g clusterExporter infoExporter \<lparr>Querys = qs\<rparr> s3)"

definition Collect_info ::
  "globals \<Rightarrow> Exporter \<Rightarrow> world \<Rightarrow> ClusterExporter \<Rightarrow> state \<Rightarrow> error + state" where
  "Collect_info g e w clusterExporter s =
     (let s2 = do_Get (uri e @ ''/v1/info'') s in
      case http_Get w (uri e @ ''/v1/info'') of
        Inl err \<Rightarrow> Inr (log_Errorf_s (Some err) s2)
      | Inr infoResp \<Rightarrow>
      if StatusCode infoResp \<noteq> 200 then Inr (log_Errorf_s None s2)
      else
      case Body infoResp of
        Inl err \<Rightarrow> Inr (log_Errorf_s (Some err) s2)
      | Inr infoBody \<Rightarrow>
      case json_Unmarshal_InfoExporter w infoBody of
        Inl err \<Rightarrow> Inr (log_Errorf_s (Some err) s2)
      | Inr infoExporter \<Rightarrow> Collect_query g e w clusterExporter infoExporter s2)"

definition Exporter_Collect :: "globals \<Rightarrow> Exporter \<Rightarrow> world \<Rightarrow> state \<Rightarrow> error + state" where
  "Exporter_Collect g e w s =
     (let s1 = do_Get (uri e @ ''/v1/cluster'') s in
      case http_Get w (uri e @ ''/v1/cluster'') of
        Inl err \<Rightarrow> Inr (log_Errorf_s (Some err) s1)
      | Inr clusterResp \<Rightarrow>
      if StatusCode clusterResp \<noteq> 200 then Inr (log_Errorf_s None s1)
      else
      case Body clusterResp of
        Inl err \<Rightarrow> Inr (log_Errorf_s (Some err) s1)
      | Inr clusterBody \<Rightarrow>
      case json_Unmarshal_ClusterExporter w clusterBody of
        Inl err \<Rightarrow> Inr (log_Errorf_s (Some err) s1)
      | Inr clusterExporter \<Rightarrow> Collect_info g e w clusterExporter s1)"

section \<open>Notions used to state the properties\<close>

text \<open>
  The four ways a stage can fail, and what a stage gives: the failure, or the decoded
  snapshot. A stage is the request for one URL together with the decoder for its shape.
\<close>

datatype failure = TransportError | BadStatus | BodyReadError | DecodeError

definition stage :: "world \<Rightarrow> string \<Rightarrow> (string \<Rightarrow> error + 'a) \<Rightarrow> failure + 'a" where
  "stage w url decode =
     (case http_Get w url of
        Inl _ \<Rightarrow> Inl TransportError
      | Inr resp \<Rightarrow>
          if StatusCode resp \<noteq> 200 then Inl BadStatus
          else case Body resp of
                 Inl _ \<Rightarrow> Inl BodyReadError
               | Inr body \<Rightarrow>
                   (case decode body of Inl _ \<Rightarrow> Inl DecodeError | Inr x \<Rightarrow> Inr x))"

text \<open>The value of \<^verbatim>\<open>err\<close> at the \<^verbatim>\<open>log.Errorf\<close> of a stage that fails.\<close>

definition stage_err :: "world \<Rightarrow> string \<Rightarrow> (string \<Rightarrow> error + 'a) \<Rightarrow> error option" where
  "stage_err w url decode =
     (case http_Get w url of
        Inl err \<Rightarrow> Some err
      | Inr resp \<Rightarrow>
          if StatusCode resp \<noteq> 200 then None
          else case Body resp of
                 Inl err \<Rightarrow> Some err
               | Inr body \<Rightarrow>
                   (case decode body of Inl err \<Rightarrow> Some err | Inr x \<Rightarrow> None))"

definition cluster_stage :: "Exporter \<Rightarrow> world \<Rightarrow> failure + ClusterExporter" where
  "cluster_stage e w = stage w (uri e @ ''/v1/cluster'') (json_Unmarshal_ClusterExporter w)"

definition info_stage :: "Exporter \<Rightarrow> world \<Rightarrow> failure + InfoExporter" where
  "info_stage e w = stage w (uri e @ ''/v1/info'') (json_Unmarshal_InfoExporter w)"

definition query_stage :: "Exporter \<Rightarrow> world \<Rightarrow> failure + Query list" where
  "query_stage e w = stage w (uri e @ ''/v1/query'') (json_Unmarshal_Querys w)"

text \<open>The metrics a call of \<^verbatim>\<open>Collect\<close> added to the channel that held \<open>ch s\<close> before.\<close>

definition emitted :: "state \<Rightarrow> state \<Rightarrow> Metric list" where
  "emitted s s' = drop (length (ch s)) (ch s')"

text \<open>
  The channel when a call from the empty state has returned. The model does not keep the
  channel of a call that panicked, and \<open>sent\<close> is empty for it.
\<close>

definition sent :: "error + state \<Rightarrow> Metric list" where
  "sent r = (case r of Inl p \<Rightarrow> [] | Inr s \<Rightarrow> ch s)"

definition gauge :: "Desc \<Rightarrow> float64 \<Rightarrow> string list \<Rightarrow> Metric" where
  "gauge d v lvs = \<lparr>desc = d, valType = GaugeValue, val = v, labelValues = lvs\<rparr>"

text \<open>
  The label values of a scrape are the hostname and, for each query, the fourteen values
  of \<open>labels\<close>; \<open>valid_labels\<close> holds when each of them is valid UTF-8.
\<close>

definition valid_labels :: "globals \<Rightarrow> Query list \<Rightarrow> bool" where
  "valid_labels g qs =
     (ValidString (hostname g) \<and> list_all (\<lambda>v. list_all ValidString (labels g v)) qs)"

text \<open>
  Decimal text in scientific notation: an optional minus sign, one digit, optionally a
  point and at least one more digit, the letter \<^verbatim>\<open>E\<close>, a sign, and at least two digits
  of exponent.
\<close>

definition sciExponent :: "string \<Rightarrow> bool" where
  "sciExponent s =
     (case s of
        e # sg # ds \<Rightarrow>
          e = CHR ''E'' \<and> (sg = CHR ''+'' \<or> sg = CHR ''-'') \<and> 2 \<le> length ds \<and> list_all isDigit ds
      | _ \<Rightarrow> False)"

definition is_scientific :: "string \<Rightarrow> bool" where
  "is_scientific s =
     (let r = (case s of c # t \<Rightarrow> if c = CHR ''-'' then t else s | [] \<Rightarrow> s)
      in case r of
           [] \<Rightarrow> False
         | d # t \<Rightarrow>
             isDigit d \<and>
             (case t of
                [] \<Rightarrow> False
              | c # t' \<Rightarrow>
                  if c = CHR ''.''
                  then takeWhile isDigit t' \<noteq> [] \<and> sciExponent (dropWhile isDigit t')
                  else sciExponent t))"

text \<open>
  \<^verbatim>\<open>float32(f)\<close>, the conversion that \<^verbatim>\<open>FormatFloat\<close> applies for bit size 32: \<open>True\<close> when
  the finite value \<open>q\<close> is too large for a \<^verbatim>\<open>float32\<close> and becomes an infinity.
\<close>

definition overflows32 :: "rat \<Rightarrow> bool" where
  "overflows32 q = (case quotient_of \<bar>q\<bar> of (a, b) \<Rightarrow> roundFloat float32info a b = None)"

section \<open>A coordinator to run the exporter against\<close>

text \<open>
  Example worlds: \<open>serving\<close> answers the listed URLs and refuses the connection for any
  other, and \<open>decoding\<close> decodes the listed bodies and fails on any other.
\<close>

definition serving :: "(string \<times> Response) list \<Rightarrow> string \<Rightarrow> error + Response" where
  "serving rs url =
     (case map_of rs url of
        None \<Rightarrow> Inl (errorString ''connection refused'')
      | Some r \<Rightarrow> Inr r)"

definition decoding :: "(string \<times> 'a) list \<Rightarrow> string \<Rightarrow> error + 'a" where
  "decoding ds body =
     (case map_of ds body of
        None \<Rightarrow> Inl (errorString ''unexpected end of JSON input'')
      | Some x \<Rightarrow> Inr x)"

definition ok :: "string \<Rightarrow> Response" where
  "ok body = \<lparr>StatusCode = 200, Body = Inr body\<rparr>"

definition example_exporter :: Exporter where
  "example_exporter = \<lparr>uri = ''http://localhost:8080''\<rparr>"

definition example_globals :: globals where
  "example_globals = init_globals (''presto01'', None)"

definition example_cluster :: ClusterExporter where
  "example_cluster =
     \<lparr>RunningQueries = Finite 3, BlockedQueries = Finite 1, QueuedQueries = Finite 2,
      ActiveWorkers = Finite 12, RunningDrivers = Finite 40, ReservedMemory = Finite 1048576,
      TotalInputRows = Finite 5000, TotalInputBytes = Finite 123456, TotalCpuTimeSecs = Finite 77\<rparr>"

definition example_info :: "string \<Rightarrow> InfoExporter" where
  "example_info up =
     \<lparr>NodeVersion = \<lparr>Version = ''0.215''\<rparr>, Environment = ''production'', Coordinator = True,
      Starting = False, Uptime = up\<rparr>"

definition example_query :: "float64 \<Rightarrow> Query" where
  "example_query mem =
     \<lparr>QueryId = ''20190101_000000_00001_abcde'', State = ''RUNNING'', Scheduled = True,
      Query = ''SELECT 1'',
      QueryStats =
        \<lparr>QueuedTime = ''1.00ms'', ElapsedTime = ''2.00s'', ExecutionTime = ''1.50s'',
         TotalDrivers = 7, RawInputDataSize = ''0B'', CumulativeUserMemory = mem,
         PeakUserMemoryReservation = ''0B'', TotalCpuTime = ''3.00ms'',
         TotalScheduledTime = ''4.00ms''\<rparr>\<rparr>"

text \<open>
  The coordinator answers the three URLs with status 200 and bodies that decode to
  \<open>example_cluster\<close>, to a node whose uptime is \<open>up\<close>, and to the queries \<open>qs\<close>.
\<close>

definition example_world :: "string \<Rightarrow> Query list \<Rightarrow> world" where
  "example_world up qs =
     \<lparr>http_Get = serving
        [(''http://localhost:8080/v1/cluster'', ok ''cluster.json''),
         (''http://localhost:8080/v1/info'', ok ''info.json''),
         (''http://localhost:8080/v1/query'', ok ''query.json'')],
      json_Unmarshal_ClusterExporter = decoding [(''cluster.json'', example_cluster)],
      json_Unmarshal_InfoExporter = decoding [(''info.json'', example_info up)],
      json_Unmarshal_Querys = decoding [(''query.json'', qs)],
      os_Hostname = (''presto01'', None)\<rparr>"

definition empty_state :: state where
  "empty_state = \<lparr>requests = [], logged = [], ch = []\<rparr>"

section \<open>What one call of Collect does\<close>

lemma validateLabelValues_None:
  "validateLabelValues vals n = None \<longleftrightarrow> length vals = n \<and> list_all ValidString vals"
proof (cases "find (\<lambda>v. \<not> ValidString v) vals")
  case None
  then have "list_all ValidString vals"
    by (auto simp: find_None_iff list_all_iff)
  then show ?thesis
    unfolding validateLabelValues_def None by auto
next
  case (Some x)
  then have "\<not> list_all ValidString vals"
    by (auto simp: find_Some_iff list_all_iff)
  then show ?thesis
    unfolding validateLabelValues_def Some by auto
qed

lemma send_gauge:
  "length (variableLabels d) = length lvs \<Longrightarrow> list_all ValidString lvs \<Longrightarrow>
   send (MustNewConstMetric d GaugeValue v lvs) s = Inr (s\<lparr>ch := ch s @ [gauge d v lvs]\<rparr>)"
  by (simp add: send_def MustNewConstMetric_def NewConstMetric_def gauge_def
      validateLabelValues_None [THEN iffD2])

lemma send_Inr:
  assumes "send (MustNewConstMetric d GaugeValue v lvs) s = Inr s'"
  shows "s' = s\<lparr>ch := ch s @ [gauge d v lvs]\<rparr> \<and> list_all ValidString lvs"
proof (cases "validateLabelValues lvs (length (variableLabels d))")
  case None
  then have "list_all ValidString lvs" by (simp add: validateLabelValues_None)
  moreover from None assms have "s' = s\<lparr>ch := ch s @ [gauge d v lvs]\<rparr>"
    by (auto simp: send_def MustNewConstMetric_def NewConstMetric_def gauge_def)
  ultimately show ?thesis by simp
next
  case (Some err)
  with assms show ?thesis
    by (simp add: send_def MustNewConstMetric_def NewConstMetric_def)
qed

lemma send_not_UTF8:
  "length (variableLabels d) = 1 \<Longrightarrow> \<not> ValidString x \<Longrightarrow>
   send (MustNewConstMetric d vt v [x]) s = Inl (errLabelValueNotUTF8 x)"
  by (simp add: send_def MustNewConstMetric_def NewConstMetric_def validateLabelValues_def)

lemma one_label:
  "variableLabels runningQueries = [''hostname'']" "variableLabels blockedQueries = [''hostname'']"
  "variableLabels queuedQueries = [''hostname'']" "variableLabels activeWorkers = [''hostname'']"
  "variableLabels runningDrivers = [''hostname'']" "variableLabels reservedMemory = [''hostname'']"
  "variableLabels totalInputRows = [''hostname'']" "variableLabels totalInputBytes = [''hostname'']"
  "variableLabels totalCpuTimeSecs = [''hostname'']" "variableLabels uptime = [''hostname'']"
  by (simp_all add: runningQueries_def blockedQueries_def queuedQueries_def activeWorkers_def
      runningDrivers_def reservedMemory_def totalInputRows_def totalInputBytes_def
      totalCpuTimeSecs_def uptime_def NewDesc_def)

lemma querys_labels:
  "variableLabels querys =
     [''hostname'', ''queryId'', ''state'', ''scheduled'', ''query'', ''queuedTime'',
      ''elapsedTime'', ''executionTime'', ''totalDrivers'', ''rawInputDataSize'',
      ''cumulativeUserMemory'', ''PeakUserMemoryReservation'', ''totalCpuTime'',
      ''totalScheduledTime'']"
  by (simp add: querys_def NewDesc_def)

lemma length_labels: "length (labels g v) = 14"
  by (simp add: labels_def)

lemma range_Querys_eq:
  "list_all (\<lambda>v. list_all ValidString (labels g v)) vs \<Longrightarrow>
   range_Querys g vs s =
     Inr (s\<lparr>ch := ch s @
        map (\<lambda>v. gauge querys (CumulativeUserMemory (QueryStats v)) (labels g v)) vs\<rparr>)"
proof (induction vs arbitrary: s)
  case Nil
  show ?case by simp
next
  case (Cons v vs)
  then show ?case
    by (simp add: send_gauge querys_labels length_labels)
qed

lemma range_Querys_Inr:
  "range_Querys g vs s = Inr s' \<Longrightarrow>
   s' = s\<lparr>ch := ch s @
        map (\<lambda>v. gauge querys (CumulativeUserMemory (QueryStats v)) (labels g v)) vs\<rparr> \<and>
   list_all (\<lambda>v. list_all ValidString (labels g v)) vs"
proof (induction vs arbitrary: s)
  case Nil
  then show ?case by simp
next
  case (Cons v vs)
  let ?m = "MustNewConstMetric querys GaugeValue (CumulativeUserMemory (QueryStats v)) (labels g v)"
  show ?case
  proof (cases "send ?m s")
    case (Inl p)
    with Cons.prems show ?thesis by simp
  next
    case (Inr t)
    from send_Inr [OF Inr]
    have t: "t = s\<lparr>ch := ch s @
        [gauge querys (CumulativeUserMemory (QueryStats v)) (labels g v)]\<rparr>"
      and v: "list_all ValidString (labels g v)" by simp_all
    from Cons.prems Inr have "range_Querys g vs t = Inr s'" by simp
    from Cons.IH [OF this] t v show ?thesis by simp
  qed
qed

text \<open>
  The sends of a call whose three stages succeeded: with a hostname that is not valid
  UTF-8 the first one panics; otherwise the ten gauges are sent, and a call that returns
  has sent them and one gauge for each query.
\<close>

lemma Collect_send_panic:
  assumes "\<not> ValidString (hostname g)"
  shows "Collect_send g c i q s = Inl (errLabelValueNotUTF8 (hostname g))"
  by (simp add: Collect_send_def send_not_UTF8 [OF _ assms] one_label)

lemma Collect_send_ten:
  assumes "ValidString (hostname g)"
  shows "Collect_send g c i q s =
     range_Querys g (Querys q) (s\<lparr>ch := ch s @
        [gauge runningQueries (RunningQueries c) [hostname g],
         gauge blockedQueries (BlockedQueries c) [hostname g],
         gauge queuedQueries (QueuedQueries c) [hostname g],
         gauge activeWorkers (ActiveWorkers c) [hostname g],
         gauge runningDrivers (RunningDrivers c) [hostname g],
         gauge reservedMemory (ReservedMemory c) [hostname g],
         gauge totalInputRows (TotalInputRows c) [hostname g],
         gauge totalInputBytes (TotalInputBytes c) [hostname g],
         gauge totalCpuTimeSecs (TotalCpuTimeSecs c) [hostname g],
         gauge uptime (fst (ParseFloat (TrimSuffix (Uptime i) ''d'') 32)) [hostname g]]\<rparr>)"
  using assms by (simp add: Collect_send_def send_gauge one_label)

lemma Collect_send_eq:
  assumes "valid_labels g (Querys q)"
  shows "Collect_send g c i q s =
     Inr (s\<lparr>ch := ch s @
        [gauge runningQueries (RunningQueries c) [hostname g],
         gauge blockedQueries (BlockedQueries c) [hostname g],
         gauge queuedQueries (QueuedQueries c) [hostname g],
         gauge activeWorkers (ActiveWorkers c) [hostname g],
         gauge runningDrivers (RunningDrivers c) [hostname g],
         gauge reservedMemory (ReservedMemory c) [hostname g],
         gauge totalInputRows (TotalInputRows c) [hostname g],
         gauge totalInputBytes (TotalInputBytes c) [hostname g],
         gauge totalCpuTimeSecs (TotalCpuTimeSecs c) [hostname g],
         gauge uptime (fst (ParseFloat (TrimSuffix (Uptime i) ''d'') 32)) [hostname g]] @
        map (\<lambda>v. gauge querys (CumulativeUserMemory (QueryStats v)) (labels g v)) (Querys q)\<rparr>)"
proof -
  from assms have h: "ValidString (hostname g)"
    and q: "list_all (\<lambda>v. list_all ValidString (labels g v)) (Querys q)"
    by (simp_all add: valid_labels_def)
  show ?thesis
    by (simp add: Collect_send_ten [OF h] range_Querys_eq [OF q])
qed

lemma Collect_send_Inr:
  assumes "Collect_send g c i q s = Inr s'"
  shows "valid_labels g (Querys q)"
proof -
  have h: "ValidString (hostname g)"
  proof (rule ccontr)
    assume "\<not> ValidString (hostname g)"
    from Collect_send_panic [OF this] assms show False by simp
  qed
  from assms have "range_Querys g (Querys q) (s\<lparr>ch := ch s @
        [gauge runningQueries (RunningQueries c) [hostname g],
         gauge blockedQueries (BlockedQueries c) [hostname g],
         gauge queuedQueries (QueuedQueries c) [hostname g],
         gauge activeWorkers (ActiveWorkers c) [hostname g],
         gauge runningDrivers (RunningDrivers c) [hostname g],
         gauge reservedMemory (ReservedMemory c) [hostname g],
         gauge totalInputRows (TotalInputRows c) [hostname g],
         gauge totalInputBytes (TotalInputBytes c) [hostname g],
         gauge totalCpuTimeSecs (TotalCpuTimeSecs c) [hostname g],
         gauge uptime (fst (ParseFloat (TrimSuffix (Uptime i) ''d'') 32)) [hostname g]]\<rparr>) = Inr s'"
    by (simp only: Collect_send_ten [OF h])
  from range_Querys_Inr [OF this] h show ?thesis
    by (simp add: valid_labels_def)
qed

lemma stage_InrD:
  "stage w url dec = Inr x \<Longrightarrow>
   \<exists>resp body. http_Get w url = Inr resp \<and> StatusCode resp = 200 \<and>
      Body resp = Inr body \<and> dec body = Inr x"
  by (auto simp: stage_def split: sum.splits if_splits)

lemma Collect_query_ok:
  "query_stage e w = Inr qs \<Longrightarrow>
   Collect_query g e w c i s =
     Collect_send g c i \<lparr>Querys = qs\<rparr> (do_Get (uri e @ ''/v1/query'') s)"
  by (auto simp: query_stage_def Collect_query_def dest!: stage_InrD)

lemma Collect_query_fail:
  "query_stage e w = Inl f \<Longrightarrow>
   Collect_query g e w c i s =
     Inr (log_Errorf_s (stage_err w (uri e @ ''/v1/query'') (json_Unmarshal_Querys w))
            (do_Get (uri e @ ''/v1/query'') s))"
  by (simp add: query_stage_def Collect_query_def stage_def stage_err_def
      split: sum.splits if_splits)

lemma Collect_info_ok:
  "info_stage e w = Inr i \<Longrightarrow>
   Collect_info g e w c s = Collect_query g e w c i (do_Get (uri e @ ''/v1/info'') s)"
  by (auto simp: info_stage_def Collect_info_def dest!: stage_InrD)

lemma Collect_info_fail:
  "info_stage e w = Inl f \<Longrightarrow>
   Collect_info g e w c s =
     Inr (log_Errorf_s (stage_err w (uri e @ ''/v1/info'') (json_Unmarshal_InfoExporter w))
            (do_Get (uri e @ ''/v1/info'') s))"
  by (simp add: info_stage_def Collect_info_def stage_def stage_err_def
      split: sum.splits if_splits)

lemma Collect_cluster_ok:
  "cluster_stage e w = Inr c \<Longrightarrow>
   Exporter_Collect g e w s = Collect_info g e w c (do_Get (uri e @ ''/v1/cluster'') s)"
  by (auto simp: cluster_stage_def Exporter_Collect_def dest!: stage_InrD)

lemma Collect_cluster_fail:
  "cluster_stage e w = Inl f \<Longrightarrow>
   Exporter_Collect g e w s =
     Inr (log_Errorf_s (stage_err w (uri e @ ''/v1/cluster'') (json_Unmarshal_ClusterExporter w))
            (do_Get (uri e @ ''/v1/cluster'') s))"
  by (simp add: cluster_stage_def Exporter_Collect_def stage_def stage_err_def
      split: sum.splits if_splits)

lemma Collect_stages:
  assumes "cluster_stage e w = Inr c" "info_stage e w = Inr i" "query_stage e w = Inr qs"
  shows "Exporter_Collect g e w s =
     Collect_send g c i \<lparr>Querys = qs\<rparr>
       (s\<lparr>requests := requests s @
             [uri e @ ''/v1/cluster'', uri e @ ''/v1/info'', uri e @ ''/v1/query'']\<rparr>)"
  by (simp add: Collect_cluster_ok [OF assms(1)] Collect_info_ok [OF assms(2)]
      Collect_query_ok [OF assms(3)] do_Get_def)

lemma Collect_ok:
  assumes "cluster_stage e w = Inr c" "info_stage e w = Inr i" "query_stage e w = Inr qs"
    and "valid_labels g qs"
  shows "Exporter_Collect g e w s =
     Inr (s\<lparr>requests := requests s @
             [uri e @ ''/v1/cluster'', uri e @ ''/v1/info'', uri e @ ''/v1/query''],
           ch := ch s @
        [gauge runningQueries (RunningQueries c) [hostname g],
         gauge blockedQueries (BlockedQueries c) [hostname g],
         gauge queuedQueries (QueuedQueries c) [hostname g],
         gauge activeWorkers (ActiveWorkers c) [hostname g],
         gauge runningDrivers (RunningDrivers c) [hostname g],
         gauge reservedMemory (ReservedMemory c) [hostname g],
         gauge totalInputRows (TotalInputRows c) [hostname g],
         gauge totalInputBytes (TotalInputBytes c) [hostname g],
         gauge totalCpuTimeSecs (TotalCpuTimeSecs c) [hostname g],
         gauge uptime (fst (ParseFloat (TrimSuffix (Uptime i) ''d'') 32)) [hostname g]] @
        map (\<lambda>v. gauge querys (CumulativeUserMemory (QueryStats v)) (labels g v)) qs\<rparr>)"
  using assms(4) by (simp add: Collect_stages [OF assms(1-3)] Collect_send_eq)

text \<open>
  A call whose three stages succeeded returns exactly when the label values are valid
  UTF-8; it panics at its first send when the hostname is not.
\<close>

lemma Collect_returns:
  assumes "cluster_stage e w = Inr c" "info_stage e w = Inr i" "query_stage e w = Inr qs"
  shows "(\<exists>s'. Exporter_Collect g e w s = Inr s') \<longleftrightarrow> valid_labels g qs"
proof
  assume "\<exists>s'. Exporter_Collect g e w s = Inr s'"
  then obtain s' where "Exporter_Collect g e w s = Inr s'" ..
  then have "Collect_send g c i \<lparr>Querys = qs\<rparr>
       (s\<lparr>requests := requests s @
             [uri e @ ''/v1/cluster'', uri e @ ''/v1/info'', uri e @ ''/v1/query'']\<rparr>) = Inr s'"
    by (simp only: Collect_stages [OF assms])
  from Collect_send_Inr [OF this] show "valid_labels g qs" by simp
next
  assume "valid_labels g qs"
  from Collect_ok [OF assms this] show "\<exists>s'. Exporter_Collect g e w s = Inr s'" by simp
qed

lemma Collect_Inr:
  assumes "cluster_stage e w = Inr c" "info_stage e w = Inr i" "query_stage e w = Inr qs"
    and "Exporter_Collect g e w s = Inr s'"
  shows "s' = s\<lparr>requests := requests s @
             [uri e @ ''/v1/cluster'', uri e @ ''/v1/info'', uri e @ ''/v1/query''],
           ch := ch s @
        [gauge runningQueries (RunningQueries c) [hostname g],
         gauge blockedQueries (BlockedQueries c) [hostname g],
         gauge queuedQueries (QueuedQueries c) [hostname g],
         gauge activeWorkers (ActiveWorkers c) [hostname g],
         gauge runningDrivers (RunningDrivers c) [hostname g],
         gauge reservedMemory (ReservedMemory c) [hostname g],
         gauge totalInputRows (TotalInputRows c) [hostname g],
         gauge totalInputBytes (TotalInputBytes c) [hostname g],
         gauge totalCpuTimeSecs (TotalCpuTimeSecs c) [hostname g],
         gauge uptime (fst (ParseFloat (TrimSuffix (Uptime i) ''d'') 32)) [hostname g]] @
        map (\<lambda>v. gauge querys (CumulativeUserMemory (QueryStats v)) (labels g v)) qs\<rparr>"
proof -
  from assms(4) have "valid_labels g qs"
    using Collect_returns [OF assms(1-3), of g s] by blast
  from Collect_ok [OF assms(1-3) this, of s] assms(4) show ?thesis by simp
qed

lemma Collect_panic:
  assumes "cluster_stage e w = Inr c" "info_stage e w = Inr i" "query_stage e w = Inr qs"
    and "\<not> ValidString (hostname g)"
  shows "Exporter_Collect g e w s = Inl (errLabelValueNotUTF8 (hostname g))"
  by (simp only: Collect_stages [OF assms(1-3)] Collect_send_panic [OF assms(4)])

lemma Collect_fail_cluster:
  assumes "cluster_stage e w = Inl f"
  shows "Exporter_Collect g e w s =
     Inr (s\<lparr>requests := requests s @ [uri e @ ''/v1/cluster''],
           logged := logged s @
             [\<lparr>level = ErrorLevel,
               msg = Sprintf_s (stage_err w (uri e @ ''/v1/cluster'')
                       (json_Unmarshal_ClusterExporter w))\<rparr>]\<rparr>)"
  by (simp add: Collect_cluster_fail [OF assms] log_Errorf_s_def do_Get_def)

lemma Collect_fail_info:
  assumes "cluster_stage e w = Inr c" "info_stage e w = Inl f"
  shows "Exporter_Collect g e w s =
     Inr (s\<lparr>requests := requests s @ [uri e @ ''/v1/cluster'', uri e @ ''/v1/info''],
           logged := logged s @
             [\<lparr>level = ErrorLevel,
               msg = Sprintf_s (stage_err w (uri e @ ''/v1/info'')
                       (json_Unmarshal_InfoExporter w))\<rparr>]\<rparr>)"
  by (simp add: Collect_cluster_ok [OF assms(1)] Collect_info_fail [OF assms(2)]
      log_Errorf_s_def do_Get_def)

lemma Collect_fail_query:
  assumes "cluster_stage e w = Inr c" "info_stage e w = Inr i" "query_stage e w = Inl f"
  shows "Exporter_Collect g e w s =
     Inr (s\<lparr>requests := requests s @
             [uri e @ ''/v1/cluster'', uri e @ ''/v1/info'', uri e @ ''/v1/query''],
           logged := logged s @
             [\<lparr>level = ErrorLevel,
               msg = Sprintf_s (stage_err w (uri e @ ''/v1/query'')
                       (json_Unmarshal_Querys w))\<rparr>]\<rparr>)"
  by (simp add: Collect_cluster_ok [OF assms(1)] Collect_info_ok [OF assms(2)]
      Collect_query_fail [OF assms(3)] log_Errorf_s_def do_Get_def)

lemma example_stages:
  "cluster_stage example_exporter (example_world up qs) = Inr example_cluster"
  "info_stage example_exporter (example_world up qs) = Inr (example_info up)"
  "query_stage example_exporter (example_world up qs) = Inr qs"
  by (simp_all add: cluster_stage_def info_stage_def query_stage_def stage_def
      example_exporter_def example_world_def serving_def decoding_def ok_def)

section \<open>Facts about the library functions\<close>

lemma TrimSuffix_append: "TrimSuffix (x @ suffix) suffix = x"
  by (simp add: TrimSuffix_def HasSuffix_def)

lemma TrimSuffix_no_suffix: "\<not> HasSuffix s suffix \<Longrightarrow> TrimSuffix s suffix = s"
  by (simp add: TrimSuffix_def)

lemma ParseFloat_cases:
  "(\<exists>v. ParseFloat s bitSize = (v, None)) \<or>
   ParseFloat s bitSize = (Finite 0, Some ErrSyntax) \<or>
   ParseFloat s bitSize = (PosInf, Some ErrRange) \<or>
   ParseFloat s bitSize = (NegInf, Some ErrRange)"
proof (cases "special s")
  case (Some v)
  then show ?thesis by (simp add: ParseFloat_def)
next
  case sp: None
  show ?thesis
  proof (cases "readFloat s")
    case None
    with sp show ?thesis by (simp add: ParseFloat_def)
  next
    case (Some t)
    obtain neg mant e10 where t: "t = (neg, mant, e10)" by (cases t)
    define r where "r = (if 0 \<le> e10
        then roundFloat (if bitSize = 32 then float32info else float64info) (mant * 10 ^ nat e10) 1
        else roundFloat (if bitSize = 32 then float32info else float64info) mant (10 ^ nat (- e10)))"
    have pf: "ParseFloat s bitSize = (floatOf neg r, if r = None then Some ErrRange else None)"
      using sp Some t by (simp add: ParseFloat_def Let_def r_def)
    show ?thesis
    proof (cases r)
      case None
      with pf show ?thesis by (simp add: floatOf_def)
    next
      case (Some nu)
      with pf show ?thesis by simp
    qed
  qed
qed

lemma ParseFloat_ErrSyntax:
  "snd (ParseFloat s bitSize) = Some ErrSyntax \<Longrightarrow> fst (ParseFloat s bitSize) = Finite 0"
  using ParseFloat_cases [of s bitSize] by auto

lemma ParseFloat_ErrRange:
  "snd (ParseFloat s bitSize) = Some ErrRange \<Longrightarrow>
   fst (ParseFloat s bitSize) = PosInf \<or> fst (ParseFloat s bitSize) = NegInf"
  using ParseFloat_cases [of s bitSize] by auto

lemma ParseFloat_examples:
  "ParseFloat ''10'' 32 = (Finite 10, None)"
  "ParseFloat ''0.5'' 32 = (Finite (1 / 2), None)"
  "ParseFloat ''5.2'' 32 = (Finite (5452595 / 1048576), None)"
  "ParseFloat ''5.2'' 64 = (Finite (5854679515581645 / 1125899906842624), None)"
  "ParseFloat ''1e39'' 32 = (PosInf, Some ErrRange)"
  "ParseFloat ''3h'' 32 = (Finite 0, Some ErrSyntax)"
  "ParseFloat ''2d1h'' 32 = (Finite 0, Some ErrSyntax)"
  "ParseFloat [] 32 = (Finite 0, Some ErrSyntax)"
  by code_simp+

lemma TrimSuffix_examples:
  "TrimSuffix ''10d'' ''d'' = ''10''"
  "TrimSuffix ''0.5d'' ''d'' = ''0.5''"
  "TrimSuffix ''5.2d'' ''d'' = ''5.2''"
  "TrimSuffix ''1e39d'' ''d'' = ''1e39''"
  "TrimSuffix ''3h'' ''d'' = ''3h''"
  "TrimSuffix ''2d1h'' ''d'' = ''2d1h''"
  "TrimSuffix [] ''d'' = []"
  "TrimSuffix ''5dd'' ''d'' = ''5d''"
  by (simp_all add: TrimSuffix_def HasSuffix_def)

section \<open>The shape of a formatted number\<close>

lemma log2floor_bounds:
  "1 \<le> n \<Longrightarrow> 0 \<le> log2floor n \<and> 2 ^ nat (log2floor n) \<le> n \<and> n < 2 * 2 ^ nat (log2floor n)"
proof (induction n rule: log2floor.induct)
  case (1 n)
  show ?case
  proof (cases "n < 2")
    case True
    with "1.prems" have "n = 1" by simp
    then show ?thesis by (simp add: log2floor.simps)
  next
    case False
    then have h: "1 \<le> n div 2" by simp
    from "1.IH" [OF False h] have ih: "0 \<le> log2floor (n div 2)"
      "2 ^ nat (log2floor (n div 2)) \<le> n div 2" "n div 2 < 2 * 2 ^ nat (log2floor (n div 2))"
      by simp_all
    have l: "log2floor n = 1 + log2floor (n div 2)"
      using False by (subst log2floor.simps) simp
    define P :: int where "P = 2 ^ nat (log2floor (n div 2))"
    have p: "(2::int) ^ nat (log2floor n) = 2 * P"
      using ih(1) by (simp add: l nat_add_distrib P_def)
    from ih(2,3) have "2 * P \<le> n \<and> n < 2 * (2 * P)"
      unfolding P_def [symmetric] by presburger
    with ih(1) show ?thesis by (simp add: p) (simp add: l)
  qed
qed

lemma real_pow_nat: "0 \<le> k \<Longrightarrow> (2::real) ^ nat k = 2 powi k"
  by (simp add: power_int_def)

lemma binExp_upper:
  assumes "0 < a" "0 < b"
  shows "real_of_int a < 2 powi (binExp a b + 1) * real_of_int b"
proof -
  define la where "la = log2floor a"
  define lb where "lb = log2floor b"
  from log2floor_bounds [of a] assms have a: "0 \<le> la" "a < 2 * 2 ^ nat la"
    by (simp_all add: la_def)
  from log2floor_bounds [of b] assms have b: "0 \<le> lb" "2 ^ nat lb \<le> b"
    by (simp_all add: lb_def)
  have ra: "real_of_int a < 2 powi (la + 1)"
  proof -
    from a(2) have "real_of_int a < real_of_int (2 * 2 ^ nat la)" by linarith
    also have "\<dots> = 2 powi (la + 1)"
      using a(1) by (simp add: power_int_add real_pow_nat)
    finally show ?thesis .
  qed
  have rb: "2 powi lb \<le> real_of_int b"
  proof -
    from b(2) have "real_of_int (2 ^ nat lb) \<le> real_of_int b" by linarith
    then show ?thesis using b(1) by (simp add: real_pow_nat)
  qed
  have k1: "real_of_int a < 2 powi (la - lb + 1) * real_of_int b"
  proof -
    have "2 powi (la + 1) = 2 powi (la - lb + 1) * (2::real) powi lb"
      by (simp add: power_int_add [symmetric])
    also have "\<dots> \<le> 2 powi (la - lb + 1) * real_of_int b"
      using rb by (simp add: mult_left_mono)
    finally show ?thesis using ra by linarith
  qed
  define T where
    "T \<longleftrightarrow> (if 0 \<le> la - lb then b * 2 ^ nat (la - lb) \<le> a else b \<le> a * 2 ^ nat (- (la - lb)))"
  have be: "binExp a b = (if T then la - lb else la - lb - 1)"
    by (simp only: binExp_def Let_def la_def lb_def T_def)
  show ?thesis
  proof (cases T)
    case True
    then have "binExp a b = la - lb"
      by (simp add: be)
    with k1 show ?thesis by simp
  next
    case nT: False
    then have e: "binExp a b = la - lb - 1"
      by (simp add: be)
    from nT have nf: "\<not> (if 0 \<le> la - lb then b * 2 ^ nat (la - lb) \<le> a
        else b \<le> a * 2 ^ nat (- (la - lb)))"
      unfolding T_def .
    show ?thesis
    proof (cases "0 \<le> la - lb")
      case True
      with nf have "a < b * 2 ^ nat (la - lb)" by simp
      then have "real_of_int a < real_of_int (b * 2 ^ nat (la - lb))" by linarith
      also have "\<dots> = 2 powi (la - lb) * real_of_int b"
        using True by (simp add: real_pow_nat)
      finally show ?thesis by (simp add: e)
    next
      case neg: False
      with nf have "a * 2 ^ nat (- (la - lb)) < b" by simp
      then have "real_of_int (a * 2 ^ nat (- (la - lb))) < real_of_int b" by linarith
      then have h: "real_of_int a * 2 powi (- (la - lb)) < real_of_int b"
        using neg by (simp add: real_pow_nat)
      define P :: real where "P = 2 powi (la - lb)"
      have P: "0 < P" by (simp add: P_def)
      have "(2::real) powi (- (la - lb)) = inverse P"
        unfolding P_def by (rule power_int_minus)
      with h have "real_of_int a / P < real_of_int b"
        by (simp add: divide_inverse)
      with P have "real_of_int a < real_of_int b * P"
        by (simp add: pos_divide_less_eq)
      then show ?thesis by (simp add: e P_def mult.commute)
    qed
  qed
qed

lemma roundHalfEven_bounds:
  assumes "0 \<le> x" "0 < y"
  shows "0 \<le> roundHalfEven x y" "roundHalfEven x y \<le> x div y + 1"
proof -
  from assms have "0 \<le> x div y" by (simp add: pos_imp_zdiv_nonneg_iff)
  then show "0 \<le> roundHalfEven x y" "roundHalfEven x y \<le> x div y + 1"
    by (simp_all add: roundHalfEven_def Let_def)
qed

lemma int_div_less:
  assumes "(a::int) < c * d" "0 < d"
  shows "a div d < c"
proof (rule ccontr)
  assume "\<not> a div d < c"
  then have "c * d \<le> a div d * d"
    using assms(2) by (simp add: mult_right_mono)
  also have "a div d * d \<le> a"
  proof -
    have "a div d * d + a mod d = a" by simp
    moreover have "0 \<le> a mod d" using assms(2) by simp
    ultimately show ?thesis by linarith
  qed
  finally show False using assms(1) by simp
qed

text \<open>
  \<open>roundFloat\<close> for \<^verbatim>\<open>float32\<close>, with its constants written out: the rounded mantissa \<open>n\<close>
  has at most 24 bits, or is \<open>2 ^ 24\<close> when the rounding carried.
\<close>

lemma roundFloat32_eq:
  assumes "0 < a" "0 < b"
  obtains u0 n where
    "u0 = max (binExp a b) (- 126) - 23"
    "n = (if 0 \<le> u0 then roundHalfEven a (b * 2 ^ nat u0)
          else roundHalfEven (a * 2 ^ nat (- u0)) b)"
    "0 \<le> n" "n \<le> 2 ^ 24"
    "roundFloat float32info a b =
      (if 127 < (if n = 2 ^ 24 then u0 + 1 else u0) + 23 then None
       else Some (if n = 2 ^ 24 then 2 ^ 23 else n, if n = 2 ^ 24 then u0 + 1 else u0))"
proof -
  define e where "e = binExp a b"
  define u0 where "u0 = max e (bias float32info + 1) - int (mantbits float32info)"
  define n where "n = (if 0 \<le> u0 then roundHalfEven a (b * 2 ^ nat u0)
      else roundHalfEven (a * 2 ^ nat (- u0)) b)"
  have "roundFloat float32info a b =
      (if 2 ^ expbits float32info - 2 + bias float32info
            < (if n = 2 ^ (mantbits float32info + 1) then u0 + 1 else u0)
              + int (mantbits float32info)
       then None
       else Some (if n = 2 ^ (mantbits float32info + 1) then 2 ^ mantbits float32info else n,
                  if n = 2 ^ (mantbits float32info + 1) then u0 + 1 else u0))"
    unfolding roundFloat_def Let_def n_def u0_def e_def using assms(1) by simp
  then have rf: "roundFloat float32info a b =
      (if 127 < (if n = 2 ^ 24 then u0 + 1 else u0) + 23 then None
       else Some (if n = 2 ^ 24 then 2 ^ 23 else n, if n = 2 ^ 24 then u0 + 1 else u0))"
    by (simp add: float32info_def)
  have u0_eq: "u0 = max e (- 126) - 23"
    by (simp add: u0_def float32info_def)
  have up: "real_of_int a < 2 powi (u0 + 24) * real_of_int b"
  proof -
    have "(2::real) powi (e + 1) \<le> 2 powi (u0 + 24)"
      by (rule power_int_increasing) (simp_all add: u0_eq)
    then have "2 powi (e + 1) * real_of_int b \<le> 2 powi (u0 + 24) * real_of_int b"
      using assms(2) by (simp add: mult_right_mono)
    with binExp_upper [OF assms(1,2)] show ?thesis by (simp add: e_def)
  qed
  have n: "0 \<le> n \<and> n \<le> 2 ^ 24"
  proof (cases "0 \<le> u0")
    case True
    have d: "0 < b * 2 ^ nat u0" using assms(2) by simp
    have pw0: "(2::real) powi (u0 + 24) = 2 ^ 24 * 2 ^ nat u0"
      using True by (simp add: power_int_add real_pow_nat)
    have "2 powi (u0 + 24) * real_of_int b = real_of_int (2 ^ 24 * (b * 2 ^ nat u0))"
      by (simp add: pw0 ac_simps)
    with up have "real_of_int a < real_of_int (2 ^ 24 * (b * 2 ^ nat u0))"
      by (simp only:)
    then have "a < 2 ^ 24 * (b * 2 ^ nat u0)" by linarith
    from int_div_less [OF this d] have "a div (b * 2 ^ nat u0) < 2 ^ 24" .
    moreover from roundHalfEven_bounds [of a "b * 2 ^ nat u0"] assms(1) d
    have "0 \<le> n" "n \<le> a div (b * 2 ^ nat u0) + 1"
      using True by (simp_all add: n_def)
    ultimately show ?thesis by simp
  next
    case False
    define P :: real where "P = 2 ^ nat (- u0)"
    have P: "0 < P" by (simp add: P_def)
    have pw: "(2::real) powi (u0 + 24) * P = 2 ^ 24"
    proof -
      have p: "P = 2 powi (- u0)" using False by (simp add: P_def real_pow_nat)
      have "(2::real) powi (u0 + 24 + - u0) = 2 powi (u0 + 24) * 2 powi (- u0)"
        by (rule power_int_add) simp
      then have "(2::real) powi (u0 + 24) * P = 2 powi (u0 + 24 + - u0)"
        by (simp only: p)
      then show ?thesis by simp
    qed
    from up P have "real_of_int a * P < 2 powi (u0 + 24) * real_of_int b * P"
      by (rule mult_strict_right_mono)
    also have "2 powi (u0 + 24) * real_of_int b * P = 2 powi (u0 + 24) * P * real_of_int b"
      by (simp only: ac_simps)
    also have "\<dots> = 2 ^ 24 * real_of_int b"
      by (simp only: pw)
    finally have "real_of_int a * P < 2 ^ 24 * real_of_int b" .
    then have "real_of_int (a * 2 ^ nat (- u0)) < real_of_int (2 ^ 24 * b)"
      by (simp add: P_def)
    then have "a * 2 ^ nat (- u0) < 2 ^ 24 * b" by linarith
    from int_div_less [OF this assms(2)] have "a * 2 ^ nat (- u0) div b < 2 ^ 24" .
    moreover from roundHalfEven_bounds [of "a * 2 ^ nat (- u0)" b] assms(1,2)
    have "0 \<le> n" "n \<le> a * 2 ^ nat (- u0) div b + 1"
      using False by (simp_all add: n_def)
    ultimately show ?thesis by simp
  qed
  from n have n0: "0 \<le> n" and n24: "n \<le> 2 ^ 24" by simp_all
  from u0_eq have "u0 = max (binExp a b) (- 126) - 23" by (simp add: e_def)
  from that [OF this n_def n0 n24 rf] show thesis .
qed

text \<open>
  A \<^verbatim>\<open>float32\<close> that \<open>roundFloat\<close> returns has a mantissa of at most 24 bits and a binary
  exponent between -149 and 104.
\<close>

lemma roundFloat32_bounds:
  assumes "0 < a" "0 < b" "roundFloat float32info a b = Some (mant, u)"
  shows "0 \<le> mant \<and> mant \<le> 2 ^ 24 \<and> - 149 \<le> u \<and> u \<le> 104"
proof -
  from roundFloat32_eq [OF assms(1,2)] obtain u0 n where
    u0: "u0 = max (binExp a b) (- 126) - 23" and n: "0 \<le> n" "n \<le> 2 ^ 24" and
    rf: "roundFloat float32info a b =
      (if 127 < (if n = 2 ^ 24 then u0 + 1 else u0) + 23 then None
       else Some (if n = 2 ^ 24 then 2 ^ 23 else n, if n = 2 ^ 24 then u0 + 1 else u0))"
    by blast
  from u0 have "- 149 \<le> u0" by simp
  with assms(3) rf n show ?thesis
    by (auto split: if_splits)
qed

lemma isDigit_digitChar: "0 \<le> d \<Longrightarrow> d < 10 \<Longrightarrow> isDigit (digitChar d)"
  unfolding isDigit_def digitChar_def by (rule nth_mem) simp

lemma digitsOf_digits: "0 \<le> n \<Longrightarrow> list_all isDigit (digitsOf n) \<and> digitsOf n \<noteq> []"
proof (induction n rule: digitsOf.induct)
  case (1 n)
  show ?case
  proof (cases "n < 10")
    case True
    with "1.prems" show ?thesis
      by (subst digitsOf.simps, subst digitsOf.simps) (simp add: isDigit_digitChar)
  next
    case False
    then have "0 \<le> n div 10" by simp
    from "1.IH" [OF False this] have ih: "list_all isDigit (digitsOf (n div 10))" by simp
    have d: "isDigit (digitChar (n mod 10))"
      by (rule isDigit_digitChar) simp_all
    have e: "digitsOf n = digitsOf (n div 10) @ [digitChar (n mod 10)]"
      using False by (subst digitsOf.simps) simp
    from ih d show ?thesis by (simp add: e)
  qed
qed

lemma length_digitsOf: "0 \<le> n \<Longrightarrow> n < 10 ^ j \<Longrightarrow> 0 < j \<Longrightarrow> length (digitsOf n) \<le> j"
proof (induction n arbitrary: j rule: digitsOf.induct)
  case (1 n)
  show ?case
  proof (cases "n < 10")
    case True
    then have "digitsOf n = [digitChar n]" by (subst digitsOf.simps) simp
    with "1.prems" show ?thesis by simp
  next
    case False
    from "1.prems" obtain j' where j: "j = Suc j'" by (cases j) simp_all
    have "j' \<noteq> 0"
    proof
      assume "j' = 0"
      with "1.prems"(2) have "n < 10" by (simp add: j)
      with False show False by simp
    qed
    then have j': "0 < j'" by simp
    from "1.prems"(2) have "n < 10 * 10 ^ j'" by (simp add: j)
    then have "n div 10 < 10 ^ j'" by (simp add: int_div_less mult.commute)
    moreover from False have "0 \<le> n div 10" by simp
    ultimately have "length (digitsOf (n div 10)) \<le> j'"
      using "1.IH" [OF False] j' by simp
    moreover have "digitsOf n = digitsOf (n div 10) @ [digitChar (n mod 10)]"
      using False by (subst digitsOf.simps) simp
    ultimately show ?thesis by (simp add: j)
  qed
qed

lemma leadShift_nonneg: "0 \<le> leadShift a b"
proof (induction a b rule: leadShift.induct)
  case (1 a b)
  show ?case
  proof (cases "a \<le> 0 \<or> b \<le> a")
    case True
    then show ?thesis by (subst leadShift.simps) simp
  next
    case False
    from "1.IH" [OF False] have "0 \<le> leadShift (a * 10) b" .
    then show ?thesis using False by (subst leadShift.simps) simp
  qed
qed

lemma leadShift_le: "0 < a \<Longrightarrow> b \<le> a * 10 ^ j \<Longrightarrow> leadShift a b \<le> int j"
proof (induction j arbitrary: a)
  case 0
  then show ?case by (subst leadShift.simps) simp
next
  case (Suc j)
  show ?case
  proof (cases "b \<le> a")
    case True
    then show ?thesis by (subst leadShift.simps) simp
  next
    case False
    from Suc.prems have "0 < a * 10" "b \<le> a * 10 * 10 ^ j" by (simp_all add: ac_simps)
    from Suc.IH [OF this] have "leadShift (a * 10) b \<le> int j" .
    then show ?thesis using False Suc.prems(1) by (subst leadShift.simps) simp
  qed
qed

lemma decimalPoint_bounds:
  assumes "0 < A" "0 < Q" "A < 10 ^ 39" "Q \<le> A * 10 ^ 46"
  shows "- 45 \<le> decimalPoint A Q \<and> decimalPoint A Q \<le> 39"
proof (cases "Q \<le> A")
  case True
  have "A div Q \<le> A" using zdiv_mono2 [of A 1 Q] assms(1,2) by simp
  moreover have "0 \<le> A div Q" using assms(1,2) by (simp add: pos_imp_zdiv_nonneg_iff)
  ultimately have "length (digitsOf (A div Q)) \<le> 39"
    using assms(3) by (intro length_digitsOf) simp_all
  then show ?thesis using True by (simp add: decimalPoint_def)
next
  case False
  from assms have "0 < A * 10" "Q \<le> A * 10 * 10 ^ 45" by simp_all
  from leadShift_le [OF this] have "leadShift (A * 10) Q \<le> 45" by simp
  with leadShift_nonneg [of "A * 10" Q] show ?thesis
    using False by (simp add: decimalPoint_def)
qed

lemma pick_cases:
  "(if C1 then Some (if D1 then x else if D2 then y else if D3 then x else y)
    else if C2 then Some x else if C3 then Some y else None) = Some c \<Longrightarrow>
   c = x \<or> c = y"
  by (simp split: if_splits)

lemma tryDigits_cases:
  assumes "tryDigits L X U P Q inclusive k force = Some c"
  shows
   "c = X * P * (if k < 0 then 10 ^ nat (- k) else 1) div (Q * (if 0 \<le> k then 10 ^ nat k else 1)) \<or>
    c = X * P * (if k < 0 then 10 ^ nat (- k) else 1) div (Q * (if 0 \<le> k then 10 ^ nat k else 1)) + 1"
  using assms unfolding tryDigits_def Let_def by (rule pick_cases)

lemma tryDigits_bounds:
  assumes "tryDigits L X U P Q inclusive k force = Some c" "0 \<le> X" "0 < P" "0 < Q"
  shows "0 \<le> c \<and> c \<le> X * P * (if k < 0 then 10 ^ nat (- k) else 1) + 1"
proof -
  define A where "A = X * P * (if k < 0 then 10 ^ nat (- k) else 1)"
  define B where "B = Q * (if 0 \<le> k then 10 ^ nat k else 1)"
  have A: "0 \<le> A" using assms(2,3) by (simp add: A_def)
  have B: "0 < B" using assms(4) by (simp add: B_def)
  from tryDigits_cases [OF assms(1)] have c: "c = A div B \<or> c = A div B + 1"
    by (simp only: A_def B_def)
  have "0 \<le> A div B" using A B by (simp add: pos_imp_zdiv_nonneg_iff)
  moreover have "A div B \<le> A" using zdiv_mono2 [of A 1 B] A B by simp
  ultimately show ?thesis using c unfolding A_def [symmetric] by auto
qed

lemma shortestLoop_bounds:
  assumes "0 \<le> X" "0 < P" "0 < Q"
  shows "shortestLoop fuel nd L X U P Q inclusive dp = (c, k) \<Longrightarrow>
    (c = 0 \<and> k = 0) \<or>
    (dp - nd - int fuel \<le> k \<and> k \<le> dp - nd \<and> 0 \<le> c \<and>
     c \<le> X * P * (if k < 0 then 10 ^ nat (- k) else 1) + 1)"
proof (induction fuel arbitrary: nd)
  case 0
  show ?case
  proof (cases "tryDigits L X U P Q inclusive (dp - nd) True")
    case None
    with "0.prems" show ?thesis by simp
  next
    case (Some c')
    with "0.prems" have e: "c' = c" "dp - nd = k" by simp_all
    from tryDigits_bounds [OF Some assms]
    have "0 \<le> c \<and> c \<le> X * P * (if k < 0 then 10 ^ nat (- k) else 1) + 1"
      unfolding e .
    moreover have "dp - nd - int 0 \<le> k \<and> k \<le> dp - nd"
      using e(2) by simp
    ultimately show ?thesis by blast
  qed
next
  case (Suc fuel)
  show ?case
  proof (cases "tryDigits L X U P Q inclusive (dp - nd) False")
    case None
    with Suc.prems have "shortestLoop fuel (nd + 1) L X U P Q inclusive dp = (c, k)" by simp
    from Suc.IH [OF this]
    have "(c = 0 \<and> k = 0) \<or>
      (dp - (nd + 1) - int fuel \<le> k \<and> k \<le> dp - (nd + 1) \<and> 0 \<le> c \<and>
       c \<le> X * P * (if k < 0 then 10 ^ nat (- k) else 1) + 1)" .
    moreover have "dp - (nd + 1) - int fuel = dp - nd - int (Suc fuel)" by simp
    moreover have "k \<le> dp - (nd + 1) \<Longrightarrow> k \<le> dp - nd" by simp
    ultimately show ?thesis by metis
  next
    case (Some c')
    with Suc.prems have e: "c' = c" "dp - nd = k" by simp_all
    from tryDigits_bounds [OF Some assms]
    have "0 \<le> c \<and> c \<le> X * P * (if k < 0 then 10 ^ nat (- k) else 1) + 1"
      unfolding e .
    moreover have "dp - nd - int (Suc fuel) \<le> k \<and> k \<le> dp - nd"
      using e(2) by simp
    ultimately show ?thesis by blast
  qed
qed

lemma roundShortest32_bounds:
  assumes "0 < mant" "mant \<le> 2 ^ 24" "- 149 \<le> u" "u \<le> 104"
    and "roundShortest float32info mant u = (c, k)"
  shows "0 \<le> c \<and> c < 10 ^ 94 \<and> - 54 \<le> k \<and> k \<le> 38"
proof -
  define X where "X = 4 * mant"
  define w where "w = u - 2"
  define P :: int where "P = (if 0 \<le> w then 2 ^ nat w else 1)"
  define Q :: int where "Q = (if w < 0 then 2 ^ nat (- w) else 1)"
  define L where "L = (if 2 ^ mantbits float32info < mant \<or>
      u + int (mantbits float32info) = bias float32info + 1 then 4 * mant - 2 else 4 * mant - 1)"
  define dp where "dp = decimalPoint (X * P) Q"
  have rs: "roundShortest float32info mant u =
      shortestLoop (maxDigits float32info - 1) 1 L X (4 * mant + 2) P Q (even mant) dp"
    unfolding roundShortest_def Let_def dp_def L_def Q_def P_def w_def X_def by (rule refl)
  have fuel: "maxDigits float32info - 1 = 8"
    by (simp add: maxDigits_def float32info_def)
  have X: "0 < X" "X \<le> 2 ^ 26" using assms(1,2) by (simp_all add: X_def)
  have P: "0 < P" "P \<le> 2 ^ 102"
  proof -
    show "0 < P" by (simp add: P_def)
    have "(2::int) ^ nat w \<le> 2 ^ 102" if "0 \<le> w"
      by (rule power_increasing) (use assms(4) in \<open>simp_all add: w_def\<close>)
    then show "P \<le> 2 ^ 102" by (simp add: P_def)
  qed
  have Q: "0 < Q" "Q \<le> 2 ^ 151"
  proof -
    show "0 < Q" by (simp add: Q_def)
    have "(2::int) ^ nat (- w) \<le> 2 ^ 151" if "w < 0"
      by (rule power_increasing) (use assms(3) in \<open>simp_all add: w_def\<close>)
    then show "Q \<le> 2 ^ 151" by (simp add: Q_def)
  qed
  have XP: "0 < X * P" "X * P \<le> 2 ^ 128"
  proof -
    show "0 < X * P" using X(1) P(1) by simp
    have "X * P \<le> 2 ^ 26 * 2 ^ 102"
      using X P by (intro mult_mono) simp_all
    then show "X * P \<le> 2 ^ 128" by simp
  qed
  have "- 45 \<le> dp \<and> dp \<le> 39"
    unfolding dp_def
  proof (rule decimalPoint_bounds)
    show "0 < X * P" by (rule XP(1))
    show "0 < Q" by (rule Q(1))
    show "X * P < 10 ^ 39" using XP(2) by simp
    have "Q \<le> 1 * 10 ^ 46" using Q(2) by simp
    also have "\<dots> \<le> X * P * 10 ^ 46"
      using XP(1) by (intro mult_right_mono) simp_all
    finally show "Q \<le> X * P * 10 ^ 46" .
  qed
  then have dp: "- 45 \<le> dp" "dp \<le> 39" by simp_all
  from assms(5) have sl:
    "shortestLoop (maxDigits float32info - 1) 1 L X (4 * mant + 2) P Q (even mant) dp = (c, k)"
    unfolding rs .
  have X0: "0 \<le> X" using X(1) by simp
  from shortestLoop_bounds [OF X0 P(1) Q(1) sl]
  have "(c = 0 \<and> k = 0) \<or>
    (dp - 1 - int (maxDigits float32info - 1) \<le> k \<and> k \<le> dp - 1 \<and> 0 \<le> c \<and>
     c \<le> X * P * (if k < 0 then 10 ^ nat (- k) else 1) + 1)" .
  then have "(c = 0 \<and> k = 0) \<or>
    (dp - 1 - 8 \<le> k \<and> k \<le> dp - 1 \<and> 0 \<le> c \<and>
     c \<le> X * P * (if k < 0 then 10 ^ nat (- k) else 1) + 1)"
    unfolding fuel by simp
  then show ?thesis
  proof
    assume "c = 0 \<and> k = 0"
    then show ?thesis by simp
  next
    assume a: "dp - 1 - 8 \<le> k \<and> k \<le> dp - 1 \<and> 0 \<le> c \<and>
      c \<le> X * P * (if k < 0 then 10 ^ nat (- k) else 1) + 1"
    with dp have k: "- 54 \<le> k" "k \<le> 38" by simp_all
    have m: "(if k < 0 then 10 ^ nat (- k) else 1) \<le> (10::int) ^ 54"
    proof (cases "k < 0")
      case True
      have "(10::int) ^ nat (- k) \<le> 10 ^ 54"
        by (rule power_increasing) (use k in simp_all)
      with True show ?thesis by simp
    next
      case False
      then show ?thesis by simp
    qed
    have "X * P * (if k < 0 then 10 ^ nat (- k) else 1) \<le> 2 ^ 128 * 10 ^ 54"
      using XP m by (intro mult_mono) simp_all
    with a have "c \<le> 2 ^ 128 * 10 ^ 54 + 1" by linarith
    then have "c < 10 ^ 94" by simp
    with a k show ?thesis by simp
  qed
qed

lemma sciExponent_fmt:
  assumes "\<bar>ex\<bar> < 1000"
  shows "sciExponent (CHR ''E'' # (if ex < 0 then ''-'' else ''+'') @
     (if \<bar>ex\<bar> < 10 then [CHR ''0'', digitChar \<bar>ex\<bar>]
      else if \<bar>ex\<bar> < 100 then [digitChar (\<bar>ex\<bar> div 10), digitChar (\<bar>ex\<bar> mod 10)]
      else [digitChar (\<bar>ex\<bar> div 100), digitChar (\<bar>ex\<bar> div 10 mod 10), digitChar (\<bar>ex\<bar> mod 10)]))"
proof -
  define n where "n = \<bar>ex\<bar>"
  have n: "0 \<le> n" "n < 1000" using assms by (simp_all add: n_def)
  have z: "isDigit CHR ''0''" by (simp add: isDigit_def)
  have d1: "isDigit (digitChar (n mod 10))" by (rule isDigit_digitChar) simp_all
  have d2: "isDigit (digitChar (n div 10 mod 10))" by (rule isDigit_digitChar) simp_all
  have d3: "isDigit (digitChar (n div 100))"
    by (rule isDigit_digitChar) (use n in simp_all)
  have d4: "n < 100 \<Longrightarrow> isDigit (digitChar (n div 10))"
    by (rule isDigit_digitChar) (use n in simp_all)
  have d5: "n < 10 \<Longrightarrow> isDigit (digitChar n)"
    by (rule isDigit_digitChar) (use n in simp_all)
  show ?thesis
    unfolding n_def [symmetric]
    by (simp add: sciExponent_def z d1 d2 d3 d4 d5)
qed

lemma isDigit_not_special:
  "isDigit c \<Longrightarrow> c \<noteq> CHR ''-'' \<and> c \<noteq> CHR ''.'' \<and> c \<noteq> CHR ''E''"
  by (auto simp: isDigit_def)

lemma is_scientific_compose:
  assumes "isDigit h" "list_all isDigit fr" "sciExponent t"
  shows "is_scientific ((if neg then ''-'' else []) @ [h] @ (if fr \<noteq> [] then ''.'' @ fr else []) @ t)"
proof -
  from assms(3) obtain sg ds where t: "t = CHR ''E'' # sg # ds"
    by (auto simp: sciExponent_def split: list.splits)
  have nE: "\<not> isDigit CHR ''E''" by (simp add: isDigit_def)
  from assms(1) have h: "h \<noteq> CHR ''-''" by (simp add: isDigit_not_special)
  have tw: "takeWhile isDigit (fr @ t) = fr"
    using assms(2) nE by (simp add: t takeWhile_append2 list_all_iff)
  have dw: "dropWhile isDigit (fr @ t) = t"
    using assms(2) nE by (simp add: t dropWhile_append2 list_all_iff)
  have body: "is_scientific (h # (if fr \<noteq> [] then ''.'' @ fr else []) @ t)"
  proof (cases "fr = []")
    case True
    with assms(1,3) h show ?thesis
      by (simp add: is_scientific_def t)
  next
    case False
    with assms(1,3) h tw dw show ?thesis
      by (simp add: is_scientific_def)
  qed
  show ?thesis
  proof (cases neg)
    case True
    from body h have "is_scientific (CHR ''-'' # h # (if fr \<noteq> [] then ''.'' @ fr else []) @ t)"
      by (simp add: is_scientific_def)
    with True show ?thesis by simp
  next
    case False
    with body show ?thesis by simp
  qed
qed

lemma fmtE_scientific:
  assumes "list_all isDigit d" "\<bar>ex\<bar> < 1000"
  shows "is_scientific (fmtE neg d ex CHR ''E'')"
proof -
  define h where "h = (if d = [] then CHR ''0'' else hd d)"
  define t where "t = CHR ''E'' # (if ex < 0 then ''-'' else ''+'') @
     (if \<bar>ex\<bar> < 10 then [CHR ''0'', digitChar \<bar>ex\<bar>]
      else if \<bar>ex\<bar> < 100 then [digitChar (\<bar>ex\<bar> div 10), digitChar (\<bar>ex\<bar> mod 10)]
      else [digitChar (\<bar>ex\<bar> div 100), digitChar (\<bar>ex\<bar> div 10 mod 10), digitChar (\<bar>ex\<bar> mod 10)])"
  have l: "(1 < length d) = (tl d \<noteq> [])"
    by (cases d) simp_all
  have e: "fmtE neg d ex CHR ''E'' =
      (if neg then ''-'' else []) @ [h] @ (if tl d \<noteq> [] then ''.'' @ tl d else []) @ t"
    unfolding fmtE_def h_def t_def l by simp
  have h: "isDigit h"
    using assms(1) by (cases d) (simp_all add: h_def isDigit_def)
  have fr: "list_all isDigit (tl d)"
    using assms(1) by (cases d) simp_all
  have "sciExponent t"
    unfolding t_def by (rule sciExponent_fmt [OF assms(2)])
  from is_scientific_compose [OF h fr this] show ?thesis
    unfolding e .
qed

lemma stripZeros_digits: "list_all isDigit ds \<Longrightarrow> list_all isDigit (stripZeros ds)"
proof -
  assume a: "list_all isDigit ds"
  have "set (stripZeros ds) \<subseteq> set ds"
    unfolding stripZeros_def using set_dropWhileD [of _ "\<lambda>c. c = CHR ''0''" "rev ds"] by auto
  with a show ?thesis by (auto simp: list_all_iff)
qed

lemma quotient_of_abs:
  assumes "quotient_of \<bar>q\<bar> = (a, b)"
  shows "0 \<le> a \<and> 0 < b"
proof -
  from assms have b: "0 < b" by (rule quotient_of_denom_pos)
  from assms have "\<bar>q\<bar> = of_int a / of_int b" by (rule quotient_of_div)
  then have "0 \<le> (of_int a :: rat) / of_int b" by (metis abs_ge_zero)
  with b have "0 \<le> (of_int a :: rat)" by (simp add: zero_le_divide_iff)
  with b show ?thesis by simp
qed

text \<open>
  \<^verbatim>\<open>FormatFloat(f, 'E', -1, 32)\<close> of a finite value: an infinity when the value is too large
  for a \<^verbatim>\<open>float32\<close>, and scientific notation otherwise.
\<close>

lemma FormatFloatE_overflow:
  assumes "overflows32 q"
  shows "FormatFloatE (Finite q) 32 = (if q < 0 then ''-Inf'' else ''+Inf'')"
proof -
  obtain a b where ab: "quotient_of \<bar>q\<bar> = (a, b)" by (cases "quotient_of \<bar>q\<bar>")
  with assms have "roundFloat float32info a b = None" by (simp add: overflows32_def)
  then show ?thesis by (simp add: FormatFloatE_def ab)
qed

lemma FormatFloatE_scientific:
  assumes "\<not> overflows32 q"
  shows "is_scientific (FormatFloatE (Finite q) 32)"
proof -
  obtain a b where ab: "quotient_of \<bar>q\<bar> = (a, b)" by (cases "quotient_of \<bar>q\<bar>")
  from quotient_of_abs [OF ab] have a: "0 \<le> a" and b: "0 < b" by simp_all
  from assms ab obtain mant u where rf: "roundFloat float32info a b = Some (mant, u)"
    by (auto simp: overflows32_def)
  show ?thesis
  proof (cases "mant = 0")
    case True
    have "is_scientific (fmtE (q < 0) [] 0 CHR ''E'')"
      by (rule fmtE_scientific) simp_all
    with True show ?thesis by (simp add: FormatFloatE_def ab rf)
  next
    case False
    have "a \<noteq> 0"
    proof
      assume "a = 0"
      with rf have "mant = 0" by (simp add: roundFloat_def)
      with False show False ..
    qed
    with a have a0: "0 < a" by simp
    from roundFloat32_bounds [OF a0 b rf] False
    have m: "0 < mant" "mant \<le> 2 ^ 24" "- 149 \<le> u" "u \<le> 104" by simp_all
    obtain c k where ck: "roundShortest float32info mant u = (c, k)"
      by (cases "roundShortest float32info mant u")
    from roundShortest32_bounds [OF m ck]
    have c: "0 \<le> c" "c < 10 ^ 94" and k: "- 54 \<le> k" "k \<le> 38" by simp_all
    from digitsOf_digits [OF c(1)] have ds: "list_all isDigit (digitsOf c)" "digitsOf c \<noteq> []"
      by simp_all
    from length_digitsOf [OF c] have "length (digitsOf c) \<le> 94" by simp
    moreover from ds(2) have "0 < length (digitsOf c)" by simp
    ultimately have ex: "\<bar>k + int (length (digitsOf c)) - 1\<bar> < 1000"
      using k by simp
    have "is_scientific (fmtE (q < 0) (stripZeros (digitsOf c))
        (k + int (length (digitsOf c)) - 1) CHR ''E'')"
      by (rule fmtE_scientific [OF stripZeros_digits [OF ds(1)] ex])
    with False show ?thesis by (simp add: FormatFloatE_def ab rf ck Let_def)
  qed
qed

lemma FormatFloatE_NegZero: "is_scientific (FormatFloatE NegZero 32)"
proof -
  have "is_scientific (fmtE True [] 0 CHR ''E'')"
    by (rule fmtE_scientific) simp_all
  then show ?thesis by (simp add: FormatFloatE_def)
qed

lemma not_scientific_Inf: "\<not> is_scientific ''+Inf''" "\<not> is_scientific ''-Inf''"
  by (simp_all add: is_scientific_def sciExponent_def isDigit_def)

lemma FormatFloatE_examples:
  "FormatFloatE (Finite 1500000000) 32 = ''1.5E+09''"
  "FormatFloatE (Finite 1361129467683753853853498429727072845824) 32 = ''+Inf''"
  "overflows32 1361129467683753853853498429727072845824"
  "\<not> overflows32 1500000000"
  "\<not> overflows32 (2 ^ 128 - 2 ^ 104)"
  "overflows32 (2 ^ 128 - 2 ^ 103)"
  by code_simp+

lemma Itoa_7: "Itoa 7 = ''7''"
  by code_simp

text \<open>
  When the conversion to \<^verbatim>\<open>float32\<close> overflows: exactly from \<open>2 ^ 128 - 2 ^ 103\<close> on, the
  midpoint between the largest \<^verbatim>\<open>float32\<close> and \<open>2 ^ 128\<close>.
\<close>

lemma binExp_lower:
  assumes "0 < a" "0 < b"
  shows "2 powi (binExp a b) * real_of_int b \<le> real_of_int a"
proof -
  define la where "la = log2floor a"
  define lb where "lb = log2floor b"
  from log2floor_bounds [of a] assms have a: "0 \<le> la" "2 ^ nat la \<le> a"
    by (simp_all add: la_def)
  from log2floor_bounds [of b] assms have b: "0 \<le> lb" "b < 2 * 2 ^ nat lb"
    by (simp_all add: lb_def)
  have ra: "2 powi la \<le> real_of_int a"
  proof -
    from a(2) have "real_of_int (2 ^ nat la) \<le> real_of_int a" by linarith
    then show ?thesis using a(1) by (simp add: real_pow_nat)
  qed
  have rb: "real_of_int b \<le> 2 powi (lb + 1)"
  proof -
    from b(2) have "real_of_int b \<le> real_of_int (2 * 2 ^ nat lb)" by linarith
    also have "\<dots> = 2 powi (lb + 1)"
      using b(1) by (simp add: power_int_add real_pow_nat)
    finally show ?thesis .
  qed
  have k1: "2 powi (la - lb - 1) * real_of_int b \<le> real_of_int a"
  proof -
    have "2 powi (la - lb - 1) * real_of_int b \<le> 2 powi (la - lb - 1) * 2 powi (lb + 1)"
      using rb by (simp add: mult_left_mono)
    also have "\<dots> = 2 powi (la - lb - 1 + (lb + 1))"
      by (rule power_int_add [symmetric]) simp
    also have "\<dots> = 2 powi la" by simp
    finally show ?thesis using ra by linarith
  qed
  define T where
    "T \<longleftrightarrow> (if 0 \<le> la - lb then b * 2 ^ nat (la - lb) \<le> a else b \<le> a * 2 ^ nat (- (la - lb)))"
  have be: "binExp a b = (if T then la - lb else la - lb - 1)"
    by (simp only: binExp_def Let_def la_def lb_def T_def)
  show ?thesis
  proof (cases T)
    case False
    then have "binExp a b = la - lb - 1" by (simp add: be)
    with k1 show ?thesis by simp
  next
    case True
    then have e: "binExp a b = la - lb" by (simp add: be)
    from True have t: "if 0 \<le> la - lb then b * 2 ^ nat (la - lb) \<le> a
        else b \<le> a * 2 ^ nat (- (la - lb))"
      unfolding T_def .
    show ?thesis
    proof (cases "0 \<le> la - lb")
      case True
      with t have "b * 2 ^ nat (la - lb) \<le> a" by simp
      then have "real_of_int (b * 2 ^ nat (la - lb)) \<le> real_of_int a" by linarith
      then show ?thesis using True by (simp add: e real_pow_nat mult.commute)
    next
      case neg: False
      with t have "b \<le> a * 2 ^ nat (- (la - lb))" by simp
      then have "real_of_int b \<le> real_of_int (a * 2 ^ nat (- (la - lb)))" by linarith
      then have h: "real_of_int b \<le> real_of_int a * 2 powi (- (la - lb))"
        using neg by (simp add: real_pow_nat)
      define P :: real where "P = 2 powi (la - lb)"
      have P: "0 < P" by (simp add: P_def)
      have "(2::real) powi (- (la - lb)) = inverse P"
        unfolding P_def by (rule power_int_minus)
      with h have "real_of_int b \<le> real_of_int a / P"
        by (simp add: divide_inverse)
      with P have "real_of_int b * P \<le> real_of_int a"
        by (simp add: pos_le_divide_eq)
      then show ?thesis by (simp add: e P_def mult.commute)
    qed
  qed
qed

lemma roundHalfEven_ge:
  assumes "0 < d" "(2 * N - 1) * d \<le> 2 * a" "even N"
  shows "N \<le> roundHalfEven a d"
proof -
  define f where "f = a div d"
  define r where "r = a mod d"
  have a: "a = f * d + r" by (simp add: f_def r_def)
  have r: "0 \<le> r" "r < d" using assms(1) by (simp_all add: r_def)
  have rh: "roundHalfEven a d =
      (if 2 * r < d then f else if d < 2 * r then f + 1 else if even f then f else f + 1)"
    by (simp add: roundHalfEven_def Let_def f_def r_def)
  have fN: "N - 1 \<le> f"
  proof (rule ccontr)
    assume "\<not> N - 1 \<le> f"
    then have "f + 2 \<le> N" by simp
    then have "(f + 2) * d \<le> N * d" using assms(1) by (simp add: mult_right_mono)
    then have "2 * (f * d + r) < (2 * N - 1) * d"
      using r assms(1) by (simp add: algebra_simps)
    with assms(2) a show False by simp
  qed
  show ?thesis
  proof (cases "N \<le> f")
    case True
    then show ?thesis by (simp add: rh)
  next
    case False
    with fN have f: "f = N - 1" by simp
    from assms(2) have "d \<le> 2 * r"
      unfolding a f using assms(1) by (simp add: algebra_simps)
    moreover from f assms(3) have "odd f" by simp
    ultimately show ?thesis by (simp add: rh f)
  qed
qed

lemma roundHalfEven_less:
  assumes "0 < d" "2 * a < (2 * N - 1) * d"
  shows "roundHalfEven a d < N"
proof -
  define f where "f = a div d"
  define r where "r = a mod d"
  have a: "a = f * d + r" by (simp add: f_def r_def)
  have r: "0 \<le> r" "r < d" using assms(1) by (simp_all add: r_def)
  have rh: "roundHalfEven a d =
      (if 2 * r < d then f else if d < 2 * r then f + 1 else if even f then f else f + 1)"
    by (simp add: roundHalfEven_def Let_def f_def r_def)
  have fN: "f \<le> N - 1"
  proof (rule ccontr)
    assume "\<not> f \<le> N - 1"
    then have "N \<le> f" by simp
    then have "N * d \<le> f * d" using assms(1) by (simp add: mult_right_mono)
    then have "2 * (N * d) - d \<le> 2 * (f * d) + 2 * r"
      using r assms(1) by linarith
    then have "(2 * N - 1) * d \<le> 2 * (f * d + r)"
      by (simp add: algebra_simps)
    with assms(2) a show False by simp
  qed
  show ?thesis
  proof (cases "f = N - 1")
    case True
    from assms(2) have "2 * r < d"
      unfolding a True by (simp add: algebra_simps)
    then show ?thesis by (simp add: rh True)
  next
    case False
    with fN have "f + 1 < N" by simp
    then show ?thesis by (simp add: rh)
  qed
qed

lemma roundFloat32_None_iff:
  assumes "0 < a" "0 < b"
  shows "roundFloat float32info a b = None \<longleftrightarrow> (2 ^ 128 - 2 ^ 103) * b \<le> a"
proof -
  define e where "e = binExp a b"
  from roundFloat32_eq [OF assms] obtain u0 n where
    u0: "u0 = max e (- 126) - 23" and
    n_eq: "n = (if 0 \<le> u0 then roundHalfEven a (b * 2 ^ nat u0)
          else roundHalfEven (a * 2 ^ nat (- u0)) b)" and
    n: "0 \<le> n" "n \<le> 2 ^ 24" and
    rf: "roundFloat float32info a b =
      (if 127 < (if n = 2 ^ 24 then u0 + 1 else u0) + 23 then None
       else Some (if n = 2 ^ 24 then 2 ^ 23 else n, if n = 2 ^ 24 then u0 + 1 else u0))"
    unfolding e_def by blast
  have none: "roundFloat float32info a b = None \<longleftrightarrow>
      127 < (if n = 2 ^ 24 then u0 + 1 else u0) + 23"
    by (simp add: rf)
  have d: "0 < b * 2 ^ 104" using assms(2) by simp
  have rb: "0 < real_of_int b" using assms(2) by simp
  show ?thesis
  proof (cases "(2 ^ 128 - 2 ^ 103) * b \<le> a")
    case True
    have "2 ^ 127 * b \<le> (2 ^ 128 - 2 ^ 103) * b"
      using assms(2) by (intro mult_right_mono) simp_all
    with True have "2 ^ 127 * b \<le> a" by linarith
    then have "real_of_int (2 ^ 127 * b) \<le> real_of_int a" by linarith
    then have "2 powi 127 * real_of_int b \<le> real_of_int a" by simp
    with binExp_upper [OF assms] have "2 powi 127 * real_of_int b < 2 powi (e + 1) * real_of_int b"
      by (simp add: e_def)
    with rb have lt: "(2::real) powi 127 < 2 powi (e + 1)" by simp
    have e: "127 \<le> e"
    proof (rule ccontr)
      assume "\<not> 127 \<le> e"
      then have "e + 1 \<le> 127" by simp
      then have "(2::real) powi (e + 1) \<le> 2 powi 127"
        by (intro power_int_increasing) simp_all
      with lt show False by simp
    qed
    show ?thesis
    proof (cases "e = 127")
      case False
      with e have "128 \<le> e" by simp
      with u0 have "127 < (if n = 2 ^ 24 then u0 + 1 else u0) + 23" by simp
      with True none show ?thesis by simp
    next
      case e127: True
      with u0 have u: "u0 = 104" by simp
      from n_eq u have nr: "n = roundHalfEven a (b * 2 ^ 104)" by simp
      from True have "(2 * 2 ^ 24 - 1) * (b * 2 ^ 104) \<le> 2 * a" by simp
      from roundHalfEven_ge [OF d this] have "2 ^ 24 \<le> n" by (simp add: nr)
      with n(2) have "n = 2 ^ 24" by simp
      with u True none show ?thesis by simp
    qed
  next
    case False
    then have lt: "a < (2 ^ 128 - 2 ^ 103) * b" by simp
    have "(2 ^ 128 - 2 ^ 103) * b \<le> 2 ^ 128 * b"
      using assms(2) by (intro mult_right_mono) simp_all
    with lt have "a < 2 ^ 128 * b" by linarith
    then have "real_of_int a < real_of_int (2 ^ 128 * b)" by linarith
    then have "real_of_int a < 2 powi 128 * real_of_int b" by simp
    with binExp_lower [OF assms] have "2 powi e * real_of_int b < 2 powi 128 * real_of_int b"
      by (simp add: e_def)
    with rb have l: "(2::real) powi e < 2 powi 128" by simp
    have e: "e \<le> 127"
    proof (rule ccontr)
      assume "\<not> e \<le> 127"
      then have "128 \<le> e" by simp
      then have "(2::real) powi 128 \<le> 2 powi e"
        by (intro power_int_increasing) simp_all
      with l show False by simp
    qed
    show ?thesis
    proof (cases "e = 127")
      case ne: False
      with e have "e \<le> 126" by simp
      with u0 have "u0 + 1 + 23 \<le> 127" by simp
      then have "\<not> 127 < (if n = 2 ^ 24 then u0 + 1 else u0) + 23" by simp
      with False none show ?thesis by simp
    next
      case True
      with u0 have u: "u0 = 104" by simp
      from n_eq u have nr: "n = roundHalfEven a (b * 2 ^ 104)" by simp
      from lt have "2 * a < (2 * 2 ^ 24 - 1) * (b * 2 ^ 104)" by simp
      from roundHalfEven_less [OF d this] have "n < 2 ^ 24" by (simp add: nr)
      with u have "\<not> 127 < (if n = 2 ^ 24 then u0 + 1 else u0) + 23" by simp
      with False none show ?thesis by simp
    qed
  qed
qed

lemma overflows32_iff: "overflows32 q \<longleftrightarrow> 2 ^ 128 - 2 ^ 103 \<le> \<bar>q\<bar>"
proof -
  obtain a b where ab: "quotient_of \<bar>q\<bar> = (a, b)" by (cases "quotient_of \<bar>q\<bar>")
  from quotient_of_abs [OF ab] have a: "0 \<le> a" and b: "0 < b" by simp_all
  from ab have q: "\<bar>q\<bar> = of_int a / of_int b" by (rule quotient_of_div)
  have ov: "overflows32 q \<longleftrightarrow> roundFloat float32info a b = None"
    by (simp add: overflows32_def ab)
  show ?thesis
  proof (cases "a = 0")
    case True
    with q have "\<bar>q\<bar> < 2 ^ 128 - 2 ^ 103" by simp
    moreover from True have "roundFloat float32info a b = Some (0, 0)"
      by (simp add: roundFloat_def)
    ultimately show ?thesis unfolding ov by simp
  next
    case False
    with a have a0: "0 < a" by simp
    have "2 ^ 128 - 2 ^ 103 \<le> \<bar>q\<bar> \<longleftrightarrow>
        (of_int ((2 ^ 128 - 2 ^ 103) * b) :: rat) \<le> of_int a"
      using b by (simp add: q pos_le_divide_eq)
    also have "\<dots> \<longleftrightarrow> (2 ^ 128 - 2 ^ 103) * b \<le> a"
      by (simp only: of_int_le_iff)
    finally show ?thesis
      unfolding ov using roundFloat32_None_iff [OF a0 b] by simp
  qed
qed

lemma FormatFloatE_fits:
  assumes "\<bar>q\<bar> < 2 ^ 128 - 2 ^ 103"
  shows "is_scientific (FormatFloatE (Finite q) 32)"
proof (rule FormatFloatE_scientific)
  from assms show "\<not> overflows32 q" by (simp add: overflows32_iff)
qed

lemma FormatFloatE_too_large:
  assumes "2 ^ 128 - 2 ^ 103 \<le> \<bar>q\<bar>"
  shows "FormatFloatE (Finite q) 32 = (if q < 0 then ''-Inf'' else ''+Inf'')"
proof (rule FormatFloatE_overflow)
  from assms show "overflows32 q" by (simp add: overflows32_iff)
qed

section \<open>The example coordinator\<close>

lemma ascii_ValidString: "list_all (\<lambda>c. (of_char c :: nat) < 128) s \<Longrightarrow> ValidString s"
  by (induction s) simp_all

lemma example_valid:
  "valid_labels example_globals []"
  "valid_labels example_globals [example_query (Finite 1500000000)]"
  "valid_labels example_globals
     [example_query (Finite 1361129467683753853853498429727072845824)]"
  by (simp_all add: valid_labels_def labels_def example_globals_def init_globals_def
      example_query_def FormatBool_def Itoa_7 FormatFloatE_examples ascii_ValidString)

lemma sent_example:
  "valid_labels g qs \<Longrightarrow>
   sent (Exporter_Collect g example_exporter (example_world up qs) empty_state) =
     [gauge runningQueries (RunningQueries example_cluster) [hostname g],
      gauge blockedQueries (BlockedQueries example_cluster) [hostname g],
      gauge queuedQueries (QueuedQueries example_cluster) [hostname g],
      gauge activeWorkers (ActiveWorkers example_cluster) [hostname g],
      gauge runningDrivers (RunningDrivers example_cluster) [hostname g],
      gauge reservedMemory (ReservedMemory example_cluster) [hostname g],
      gauge totalInputRows (TotalInputRows example_cluster) [hostname g],
      gauge totalInputBytes (TotalInputBytes example_cluster) [hostname g],
      gauge totalCpuTimeSecs (TotalCpuTimeSecs example_cluster) [hostname g],
      gauge uptime (fst (ParseFloat (TrimSuffix up ''d'') 32)) [hostname g]] @
     map (\<lambda>v. gauge querys (CumulativeUserMemory (QueryStats v)) (labels g v)) qs"
  by (simp add: Collect_ok [OF example_stages] sent_def empty_state_def example_info_def)

lemma sent_Inl: "sent (Inl p) = []"
  by (simp add: sent_def)

text \<open>A machine whose name is the single byte \<^verbatim>\<open>0xFF\<close>, which is not valid UTF-8.\<close>

lemma example_panic:
  "Exporter_Collect (init_globals ([CHR 0xFF], None)) example_exporter (example_world up qs) s =
     Inl (errLabelValueNotUTF8 [CHR 0xFF])"
proof -
  have "\<not> ValidString (hostname (init_globals ([CHR 0xFF], None)))"
    by (simp add: init_globals_def)
  from Collect_panic [OF example_stages this] show ?thesis
    by (simp add: init_globals_def)
qed

section \<open>Fail-fast, all or nothing\<close>

text \<open>
  C1. Whenever one of the three stages (cluster, info, query) fails, for any of the four
  reasons (transport error, status other than 200, error reading the body, error decoding
  it), the call returns having sent no metric, and the requests it made are exactly those
  up to and including the failing stage: no later stage's GET is made. A call that sends
  any metric is one in which all three stages succeeded.
\<close>

theorem Collect_fail_fast:
  "(cluster_stage e w = Inl f \<longrightarrow>
      (\<exists>s'. Exporter_Collect g e w s = Inr s' \<and> ch s' = ch s \<and> emitted s s' = [] \<and>
         requests s' = requests s @ [uri e @ ''/v1/cluster''])) \<and>
   (cluster_stage e w = Inr c \<and> info_stage e w = Inl f \<longrightarrow>
      (\<exists>s'. Exporter_Collect g e w s = Inr s' \<and> ch s' = ch s \<and> emitted s s' = [] \<and>
         requests s' = requests s @ [uri e @ ''/v1/cluster'', uri e @ ''/v1/info''])) \<and>
   (cluster_stage e w = Inr c \<and> info_stage e w = Inr i \<and> query_stage e w = Inl f \<longrightarrow>
      (\<exists>s'. Exporter_Collect g e w s = Inr s' \<and> ch s' = ch s \<and> emitted s s' = [] \<and>
         requests s' = requests s @
           [uri e @ ''/v1/cluster'', uri e @ ''/v1/info'', uri e @ ''/v1/query''])) \<and>
   (Exporter_Collect g e w s = Inr s' \<and> emitted s s' \<noteq> [] \<longrightarrow>
      (\<exists>c i qs. cluster_stage e w = Inr c \<and> info_stage e w = Inr i \<and>
         query_stage e w = Inr qs))"
proof (intro conjI impI)
  assume "cluster_stage e w = Inl f"
  then show "\<exists>s'. Exporter_Collect g e w s = Inr s' \<and> ch s' = ch s \<and> emitted s s' = [] \<and>
      requests s' = requests s @ [uri e @ ''/v1/cluster'']"
    by (simp add: Collect_fail_cluster emitted_def)
next
  assume "cluster_stage e w = Inr c \<and> info_stage e w = Inl f"
  then show "\<exists>s'. Exporter_Collect g e w s = Inr s' \<and> ch s' = ch s \<and> emitted s s' = [] \<and>
      requests s' = requests s @ [uri e @ ''/v1/cluster'', uri e @ ''/v1/info'']"
    by (simp add: Collect_fail_info emitted_def)
next
  assume "cluster_stage e w = Inr c \<and> info_stage e w = Inr i \<and> query_stage e w = Inl f"
  then show "\<exists>s'. Exporter_Collect g e w s = Inr s' \<and> ch s' = ch s \<and> emitted s s' = [] \<and>
      requests s' = requests s @
        [uri e @ ''/v1/cluster'', uri e @ ''/v1/info'', uri e @ ''/v1/query'']"
    by (simp add: Collect_fail_query emitted_def)
next
  assume a: "Exporter_Collect g e w s = Inr s' \<and> emitted s s' \<noteq> []"
  show "\<exists>c i qs. cluster_stage e w = Inr c \<and> info_stage e w = Inr i \<and>
      query_stage e w = Inr qs"
  proof (cases "cluster_stage e w")
    case (Inl f1)
    with a show ?thesis by (auto simp: Collect_fail_cluster emitted_def)
  next
    case c1: (Inr c1)
    show ?thesis
    proof (cases "info_stage e w")
      case (Inl f1)
      with a c1 show ?thesis by (auto simp: Collect_fail_info emitted_def)
    next
      case i1: (Inr i1)
      show ?thesis
      proof (cases "query_stage e w")
        case (Inl f1)
        with a c1 i1 show ?thesis by (auto simp: Collect_fail_query emitted_def)
      next
        case (Inr qs1)
        with c1 i1 show ?thesis by simp
      qed
    qed
  qed
qed

text \<open>
  Witness: a coordinator that answers the cluster URL with status 500; one that refuses the
  connection for the info URL; one whose query body does not decode; and one that answers
  all three.
\<close>

theorem Collect_fail_fast_witness:
  "(let w = (example_world ''5d'' [])\<lparr>http_Get := (http_Get (example_world ''5d'' []))
               (''http://localhost:8080/v1/cluster'' := Inr \<lparr>StatusCode = 500, Body = Inr []\<rparr>)\<rparr>
    in cluster_stage example_exporter w = Inl BadStatus \<and>
       (\<exists>s'. Exporter_Collect example_globals example_exporter w empty_state = Inr s' \<and>
          ch s' = [] \<and> requests s' = [''http://localhost:8080/v1/cluster''])) \<and>
   (let w = (example_world ''5d'' [])\<lparr>http_Get := (http_Get (example_world ''5d'' []))
               (''http://localhost:8080/v1/info'' := Inl (errorString ''connection refused''))\<rparr>
    in cluster_stage example_exporter w = Inr example_cluster \<and>
       info_stage example_exporter w = Inl TransportError \<and>
       (\<exists>s'. Exporter_Collect example_globals example_exporter w empty_state = Inr s' \<and>
          ch s' = [] \<and>
          requests s' = [''http://localhost:8080/v1/cluster'', ''http://localhost:8080/v1/info''])) \<and>
   (let w = (example_world ''5d'' [])\<lparr>json_Unmarshal_Querys := decoding []\<rparr>
    in cluster_stage example_exporter w = Inr example_cluster \<and>
       info_stage example_exporter w = Inr (example_info ''5d'') \<and>
       query_stage example_exporter w = Inl DecodeError \<and>
       (\<exists>s'. Exporter_Collect example_globals example_exporter w empty_state = Inr s' \<and>
          ch s' = [] \<and>
          requests s' = [''http://localhost:8080/v1/cluster'', ''http://localhost:8080/v1/info'',
                         ''http://localhost:8080/v1/query''])) \<and>
   (\<exists>s'. Exporter_Collect example_globals example_exporter (example_world ''5d'' []) empty_state
            = Inr s' \<and> emitted empty_state s' \<noteq> [] \<and>
      (\<exists>c i qs. cluster_stage example_exporter (example_world ''5d'' []) = Inr c \<and>
         info_stage example_exporter (example_world ''5d'' []) = Inr i \<and>
         query_stage example_exporter (example_world ''5d'' []) = Inr qs))"
proof -
  let ?w1 = "(example_world ''5d'' [])\<lparr>http_Get := (http_Get (example_world ''5d'' []))
               (''http://localhost:8080/v1/cluster'' := Inr \<lparr>StatusCode = 500, Body = Inr []\<rparr>)\<rparr>"
  let ?w2 = "(example_world ''5d'' [])\<lparr>http_Get := (http_Get (example_world ''5d'' []))
               (''http://localhost:8080/v1/info'' := Inl (errorString ''connection refused''))\<rparr>"
  let ?w3 = "(example_world ''5d'' [])\<lparr>json_Unmarshal_Querys := decoding []\<rparr>"
  have c1: "cluster_stage example_exporter ?w1 = Inl BadStatus"
    by (simp add: cluster_stage_def stage_def example_exporter_def example_world_def
        serving_def decoding_def ok_def)
  have c2: "cluster_stage example_exporter ?w2 = Inr example_cluster"
    and i2: "info_stage example_exporter ?w2 = Inl TransportError"
    by (simp_all add: cluster_stage_def info_stage_def stage_def example_exporter_def
        example_world_def serving_def decoding_def ok_def)
  have c3: "cluster_stage example_exporter ?w3 = Inr example_cluster"
    and i3: "info_stage example_exporter ?w3 = Inr (example_info ''5d'')"
    and q3: "query_stage example_exporter ?w3 = Inl DecodeError"
    by (simp_all add: cluster_stage_def info_stage_def query_stage_def stage_def
        example_exporter_def example_world_def serving_def decoding_def ok_def)
  note t1 = Collect_fail_fast [of example_exporter ?w1 BadStatus example_globals empty_state,
      THEN conjunct1, rule_format, OF c1]
  note t2 = Collect_fail_fast [of example_exporter ?w2 TransportError example_globals
      empty_state example_cluster, THEN conjunct2, THEN conjunct1, rule_format, OF conjI [OF c2 i2]]
  note t3 = Collect_fail_fast [of example_exporter ?w3 DecodeError example_globals
      empty_state example_cluster "example_info ''5d''", THEN conjunct2, THEN conjunct2,
      THEN conjunct1, rule_format, OF conjI [OF c3 conjI [OF i3 q3]]]
  from t1 have r1: "\<exists>s'. Exporter_Collect example_globals example_exporter ?w1 empty_state = Inr s' \<and>
          ch s' = [] \<and> requests s' = [''http://localhost:8080/v1/cluster'']"
    by (auto simp: empty_state_def example_exporter_def)
  from t2 have r2: "\<exists>s'. Exporter_Collect example_globals example_exporter ?w2 empty_state = Inr s' \<and>
          ch s' = [] \<and>
          requests s' = [''http://localhost:8080/v1/cluster'', ''http://localhost:8080/v1/info'']"
    by (auto simp: empty_state_def example_exporter_def)
  from t3 have r3: "\<exists>s'. Exporter_Collect example_globals example_exporter ?w3 empty_state = Inr s' \<and>
          ch s' = [] \<and>
          requests s' = [''http://localhost:8080/v1/cluster'', ''http://localhost:8080/v1/info'',
                         ''http://localhost:8080/v1/query'']"
    by (auto simp: empty_state_def example_exporter_def)
  obtain s' where s': "Exporter_Collect example_globals example_exporter (example_world ''5d'' [])
      empty_state = Inr s'" and ne: "emitted empty_state s' \<noteq> []"
    by (simp add: Collect_ok [OF example_stages example_valid(1)] emitted_def empty_state_def)
  from Collect_fail_fast [of example_exporter "example_world ''5d'' []" BadStatus example_globals
      empty_state example_cluster "example_info ''5d''" s', THEN conjunct2, THEN conjunct2,
      THEN conjunct2, rule_format, OF conjI [OF s' ne]]
  have r4: "\<exists>c i qs. cluster_stage example_exporter (example_world ''5d'' []) = Inr c \<and>
         info_stage example_exporter (example_world ''5d'' []) = Inr i \<and>
         query_stage example_exporter (example_world ''5d'' []) = Inr qs" .
  show ?thesis
    using c1 r1 c2 i2 r2 c3 i3 q3 r3 s' ne r4 unfolding Let_def by blast
qed

section \<open>The cluster gauges\<close>

text \<open>
  C2. A successful call of \<^verbatim>\<open>Collect\<close> is one whose three stages succeeded and that
  returned; such a call returns exactly when every label value is valid UTF-8, since
  \<^verbatim>\<open>MustNewConstMetric\<close> panics on any other. When the cluster body decoded to \<open>c\<close>, the
  first nine metrics that a successful call has sent are the nine cluster gauges in the
  order of the source, each with the value of its field of \<open>c\<close> unchanged and with exactly
  one label value, the hostname, for the one label name \<^verbatim>\<open>hostname\<close> of its descriptor.
\<close>

theorem cluster_gauges_identity:
  assumes "cluster_stage e w = Inr c" "info_stage e w = Inr i" "query_stage e w = Inr qs"
  shows "((\<exists>s'. Exporter_Collect g e w s = Inr s') \<longleftrightarrow> valid_labels g qs) \<and>
     (\<forall>s'. Exporter_Collect g e w s = Inr s' \<longrightarrow>
       take 9 (emitted s s') =
         [\<lparr>desc = runningQueries, valType = GaugeValue, val = RunningQueries c,
            labelValues = [hostname g]\<rparr>,
          \<lparr>desc = blockedQueries, valType = GaugeValue, val = BlockedQueries c,
            labelValues = [hostname g]\<rparr>,
          \<lparr>desc = queuedQueries, valType = GaugeValue, val = QueuedQueries c,
            labelValues = [hostname g]\<rparr>,
          \<lparr>desc = activeWorkers, valType = GaugeValue, val = ActiveWorkers c,
            labelValues = [hostname g]\<rparr>,
          \<lparr>desc = runningDrivers, valType = GaugeValue, val = RunningDrivers c,
            labelValues = [hostname g]\<rparr>,
          \<lparr>desc = reservedMemory, valType = GaugeValue, val = ReservedMemory c,
            labelValues = [hostname g]\<rparr>,
          \<lparr>desc = totalInputRows, valType = GaugeValue, val = TotalInputRows c,
            labelValues = [hostname g]\<rparr>,
          \<lparr>desc = totalInputBytes, valType = GaugeValue, val = TotalInputBytes c,
            labelValues = [hostname g]\<rparr>,
          \<lparr>desc = totalCpuTimeSecs, valType = GaugeValue, val = TotalCpuTimeSecs c,
            labelValues = [hostname g]\<rparr>] \<and>
       map (\<lambda>m. variableLabels (desc m)) (take 9 (emitted s s')) = replicate 9 [''hostname''])"
proof (intro conjI allI impI)
  show "(\<exists>s'. Exporter_Collect g e w s = Inr s') \<longleftrightarrow> valid_labels g qs"
    by (rule Collect_returns [OF assms])
next
  fix s'
  assume r: "Exporter_Collect g e w s = Inr s'"
  note s' = Collect_Inr [OF assms r]
  show "take 9 (emitted s s') =
         [\<lparr>desc = runningQueries, valType = GaugeValue, val = RunningQueries c,
            labelValues = [hostname g]\<rparr>,
          \<lparr>desc = blockedQueries, valType = GaugeValue, val = BlockedQueries c,
            labelValues = [hostname g]\<rparr>,
          \<lparr>desc = queuedQueries, valType = GaugeValue, val = QueuedQueries c,
            labelValues = [hostname g]\<rparr>,
          \<lparr>desc = activeWorkers, valType = GaugeValue, val = ActiveWorkers c,
            labelValues = [hostname g]\<rparr>,
          \<lparr>desc = runningDrivers, valType = GaugeValue, val = RunningDrivers c,
            labelValues = [hostname g]\<rparr>,
          \<lparr>desc = reservedMemory, valType = GaugeValue, val = ReservedMemory c,
            labelValues = [hostname g]\<rparr>,
          \<lparr>desc = totalInputRows, valType = GaugeValue, val = TotalInputRows c,
            labelValues = [hostname g]\<rparr>,
          \<lparr>desc = totalInputBytes, valType = GaugeValue, val = TotalInputBytes c,
            labelValues = [hostname g]\<rparr>,
          \<lparr>desc = totalCpuTimeSecs, valType = GaugeValue, val = TotalCpuTimeSecs c,
            labelValues = [hostname g]\<rparr>]"
    by (simp add: s' emitted_def gauge_def numeral_eq_Suc)
  show "map (\<lambda>m. variableLabels (desc m)) (take 9 (emitted s s')) = replicate 9 [''hostname'']"
    by (simp add: s' emitted_def gauge_def one_label numeral_eq_Suc)
qed

text \<open>
  Witness: the example coordinator, scraped on the machine \<^verbatim>\<open>presto01\<close>.
\<close>

theorem cluster_gauges_identity_witness:
  "\<exists>s'. Exporter_Collect example_globals example_exporter (example_world ''5d'' []) empty_state
          = Inr s' \<and>
     map val (take 9 (emitted empty_state s')) =
       [Finite 3, Finite 1, Finite 2, Finite 12, Finite 40, Finite 1048576, Finite 5000,
        Finite 123456, Finite 77] \<and>
     map labelValues (take 9 (emitted empty_state s')) = replicate 9 [''presto01'']"
proof -
  note t = cluster_gauges_identity [OF example_stages [of "''5d''" "[]"],
      where g = example_globals and s = empty_state]
  from t [THEN conjunct1, THEN iffD2, OF example_valid(1)]
  obtain s' where s': "Exporter_Collect example_globals example_exporter
      (example_world ''5d'' []) empty_state = Inr s'" ..
  from t [THEN conjunct2, rule_format, OF s']
  have m: "map val (take 9 (emitted empty_state s')) =
       [Finite 3, Finite 1, Finite 2, Finite 12, Finite 40, Finite 1048576, Finite 5000,
        Finite 123456, Finite 77] \<and>
     map labelValues (take 9 (emitted empty_state s')) = replicate 9 [''presto01'']"
    by (simp add: example_cluster_def example_globals_def init_globals_def numeral_eq_Suc)
  show ?thesis
    by (rule exI [where x = s']) (simp only: s' m simp_thms)
qed

section \<open>The per-query gauges\<close>

text \<open>
  C3 as stated fails in two ways. A query whose cumulativeUserMemory is \<open>2 ^ 130\<close> (a
  \<^verbatim>\<open>float64\<close>, about 1.36e39, beyond the \<^verbatim>\<open>float32\<close> range) gets a per-query gauge with that
  value, and its cumulativeUserMemory label is the text \<^verbatim>\<open>+Inf\<close>, which is not decimal
  text in scientific notation. And on a machine whose name is not valid UTF-8 (the byte
  \<^verbatim>\<open>0xFF\<close>) the call panics at its first send: the query list has one query, and no per-query
  gauge is sent.
\<close>

theorem query_label_Inf_not_scientific:
  "length (sent (Exporter_Collect example_globals example_exporter
             (example_world ''5d'' [example_query (Finite (2 ^ 130))]) empty_state)) = 11 \<and>
   desc (sent (Exporter_Collect example_globals example_exporter
           (example_world ''5d'' [example_query (Finite (2 ^ 130))]) empty_state) ! 10) = querys \<and>
   val (sent (Exporter_Collect example_globals example_exporter
          (example_world ''5d'' [example_query (Finite (2 ^ 130))]) empty_state) ! 10)
     = Finite (2 ^ 130) \<and>
   labelValues (sent (Exporter_Collect example_globals example_exporter
                  (example_world ''5d'' [example_query (Finite (2 ^ 130))]) empty_state) ! 10) ! 10
     = ''+Inf'' \<and>
   \<not> is_scientific (labelValues (sent (Exporter_Collect example_globals example_exporter
                  (example_world ''5d'' [example_query (Finite (2 ^ 130))]) empty_state) ! 10) ! 10) \<and>
   query_stage example_exporter (example_world ''5d'' [example_query (Finite 1500000000)])
     = Inr [example_query (Finite 1500000000)] \<and>
   Exporter_Collect (init_globals ([CHR 0xFF], None)) example_exporter
     (example_world ''5d'' [example_query (Finite 1500000000)]) empty_state
     = Inl (errLabelValueNotUTF8 [CHR 0xFF]) \<and>
   sent (Exporter_Collect (init_globals ([CHR 0xFF], None)) example_exporter
     (example_world ''5d'' [example_query (Finite 1500000000)]) empty_state) = []"
proof -
  have s: "sent (Exporter_Collect example_globals example_exporter
      (example_world ''5d'' [example_query (Finite 1361129467683753853853498429727072845824)])
      empty_state) ! 10 =
    gauge querys (Finite 1361129467683753853853498429727072845824)
      (labels example_globals
         (example_query (Finite 1361129467683753853853498429727072845824)))"
    and n: "length (sent (Exporter_Collect example_globals example_exporter
      (example_world ''5d'' [example_query (Finite 1361129467683753853853498429727072845824)])
      empty_state)) = 11"
    by (simp_all add: sent_example [OF example_valid(3)])
       (simp add: example_query_def)
  have l: "labels example_globals
      (example_query (Finite 1361129467683753853853498429727072845824)) ! 10 = ''+Inf''"
    by (simp add: labels_def example_query_def FormatFloatE_examples)
  show ?thesis
    by (simp add: s n l gauge_def not_scientific_Inf example_stages example_panic sent_Inl)
qed

text \<open>
  C3, amended. The three stages having succeeded and the query list having decoded to
  \<open>qs\<close>, the call returns exactly when the label values are valid UTF-8. A call that
  returns has sent one per-query gauge for each element of \<open>qs\<close>, in order, after the ten
  other gauges. The gauge of a query has the query's cumulativeUserMemory as its value and
  fourteen label values for the fourteen label names: the hostname, the query id, the
  state, \<^verbatim>\<open>true\<close> or \<^verbatim>\<open>false\<close> for the scheduled flag, the query text verbatim, the string
  statistics verbatim, the decimal text of totalDrivers (\<^verbatim>\<open>7\<close> for 7), and for
  cumulativeUserMemory the text \<^verbatim>\<open>FormatFloat(v, 'E', -1, 32)\<close>: decimal text in scientific
  notation when the magnitude of the (finite) value is below \<open>2 ^ 128 - 2 ^ 103\<close> (about
  3.4028236e38), where it rounds to a finite \<^verbatim>\<open>float32\<close>, and \<^verbatim>\<open>+Inf\<close> or \<^verbatim>\<open>-Inf\<close> from there on.
\<close>

theorem per_query_gauge:
  assumes "cluster_stage e w = Inr c" "info_stage e w = Inr i" "query_stage e w = Inr qs"
    and "k < length qs"
  shows "((\<exists>s'. Exporter_Collect g e w s = Inr s') \<longleftrightarrow> valid_labels g qs) \<and>
   (\<forall>s'. Exporter_Collect g e w s = Inr s' \<longrightarrow>
     length (emitted s s') = 10 + length qs \<and>
     length (filter (\<lambda>m. desc m = querys) (emitted s s')) = length qs \<and>
     (let m = emitted s s' ! (10 + k); v = qs ! k; mem = CumulativeUserMemory (QueryStats v)
      in desc m = querys \<and> valType m = GaugeValue \<and> val m = mem \<and>
         length (labelValues m) = 14 \<and> length (variableLabels (desc m)) = 14 \<and>
         labelValues m =
           [hostname g, QueryId v, State v, if Scheduled v then ''true'' else ''false'',
            Query v, QueuedTime (QueryStats v), ElapsedTime (QueryStats v),
            ExecutionTime (QueryStats v), Itoa (TotalDrivers (QueryStats v)),
            RawInputDataSize (QueryStats v), FormatFloatE mem 32,
            PeakUserMemoryReservation (QueryStats v), TotalCpuTime (QueryStats v),
            TotalScheduledTime (QueryStats v)] \<and>
         (TotalDrivers (QueryStats v) = 7 \<longrightarrow> labelValues m ! 8 = ''7'') \<and>
         (\<forall>q. mem = Finite q \<and> \<bar>q\<bar> < 2 ^ 128 - 2 ^ 103 \<longrightarrow>
            is_scientific (labelValues m ! 10)) \<and>
         (\<forall>q. mem = Finite q \<and> 2 ^ 128 - 2 ^ 103 \<le> \<bar>q\<bar> \<longrightarrow>
            labelValues m ! 10 = (if q < 0 then ''-Inf'' else ''+Inf'')) \<and>
         (mem = NegZero \<longrightarrow> is_scientific (labelValues m ! 10))))"
proof (intro conjI allI impI)
  show "(\<exists>s'. Exporter_Collect g e w s = Inr s') \<longleftrightarrow> valid_labels g qs"
    by (rule Collect_returns [OF assms(1-3)])
next
  fix s'
  assume r: "Exporter_Collect g e w s = Inr s'"
  let ?ten = "[gauge runningQueries (RunningQueries c) [hostname g],
         gauge blockedQueries (BlockedQueries c) [hostname g],
         gauge queuedQueries (QueuedQueries c) [hostname g],
         gauge activeWorkers (ActiveWorkers c) [hostname g],
         gauge runningDrivers (RunningDrivers c) [hostname g],
         gauge reservedMemory (ReservedMemory c) [hostname g],
         gauge totalInputRows (TotalInputRows c) [hostname g],
         gauge totalInputBytes (TotalInputBytes c) [hostname g],
         gauge totalCpuTimeSecs (TotalCpuTimeSecs c) [hostname g],
         gauge uptime (fst (ParseFloat (TrimSuffix (Uptime i) ''d'') 32)) [hostname g]]"
  let ?f = "\<lambda>v. gauge querys (CumulativeUserMemory (QueryStats v)) (labels g v)"
  define v where "v = qs ! k"
  define mem where "mem = CumulativeUserMemory (QueryStats v)"
  define m where "m = emitted s s' ! (10 + k)"
  have em: "emitted s s' = ?ten @ map ?f qs"
    by (simp add: Collect_Inr [OF assms(1-3) r] emitted_def)
  show "length (emitted s s') = 10 + length qs"
    by (simp add: em)
  have ften: "filter (\<lambda>m. desc m = querys) ?ten = []"
    by (simp add: gauge_def runningQueries_def blockedQueries_def queuedQueries_def
        activeWorkers_def runningDrivers_def reservedMemory_def totalInputRows_def
        totalInputBytes_def totalCpuTimeSecs_def uptime_def querys_def NewDesc_def)
  have fq: "filter (\<lambda>m. desc m = querys) (map ?f qs) = map ?f qs"
    by (simp add: filter_map o_def gauge_def)
  show "length (filter (\<lambda>m. desc m = querys) (emitted s s')) = length qs"
    by (simp only: em filter_append ften fq) simp
  have "m = (?ten @ map ?f qs) ! (10 + k)"
    unfolding m_def em ..
  also have "\<dots> = map ?f qs ! k"
    by (simp add: nth_append)
  also have "\<dots> = gauge querys mem (labels g v)"
    using assms(4) by (simp add: v_def mem_def)
  finally have m: "m = gauge querys mem (labels g v)" .
  have lv: "labelValues m =
           [hostname g, QueryId v, State v, if Scheduled v then ''true'' else ''false'',
            Query v, QueuedTime (QueryStats v), ElapsedTime (QueryStats v),
            ExecutionTime (QueryStats v), Itoa (TotalDrivers (QueryStats v)),
            RawInputDataSize (QueryStats v), FormatFloatE mem 32,
            PeakUserMemoryReservation (QueryStats v), TotalCpuTime (QueryStats v),
            TotalScheduledTime (QueryStats v)]"
    by (simp add: m gauge_def labels_def FormatBool_def mem_def)
  have l8: "labelValues m ! 8 = Itoa (TotalDrivers (QueryStats v))"
    and l10: "labelValues m ! 10 = FormatFloatE mem 32"
    by (simp_all add: lv)
  have p1: "desc m = querys \<and> valType m = GaugeValue \<and> val m = mem \<and>
      length (labelValues m) = 14 \<and> length (variableLabels (desc m)) = 14"
    by (simp add: lv) (simp add: m gauge_def querys_labels)
  have p2: "TotalDrivers (QueryStats v) = 7 \<longrightarrow> labelValues m ! 8 = ''7''"
    by (simp add: l8 Itoa_7)
  have p3: "\<forall>q. mem = Finite q \<and> \<bar>q\<bar> < 2 ^ 128 - 2 ^ 103 \<longrightarrow>
      is_scientific (labelValues m ! 10)"
    using FormatFloatE_fits by (simp add: l10)
  have p4: "\<forall>q. mem = Finite q \<and> 2 ^ 128 - 2 ^ 103 \<le> \<bar>q\<bar> \<longrightarrow>
      labelValues m ! 10 = (if q < 0 then ''-Inf'' else ''+Inf'')"
    using FormatFloatE_too_large by (simp add: l10)
  have p5: "mem = NegZero \<longrightarrow> is_scientific (labelValues m ! 10)"
    by (simp add: l10 FormatFloatE_NegZero)
  from p1 lv p2 p3 p4 p5 show
    "(let m = emitted s s' ! (10 + k); v = qs ! k; mem = CumulativeUserMemory (QueryStats v)
      in desc m = querys \<and> valType m = GaugeValue \<and> val m = mem \<and>
         length (labelValues m) = 14 \<and> length (variableLabels (desc m)) = 14 \<and>
         labelValues m =
           [hostname g, QueryId v, State v, if Scheduled v then ''true'' else ''false'',
            Query v, QueuedTime (QueryStats v), ElapsedTime (QueryStats v),
            ExecutionTime (QueryStats v), Itoa (TotalDrivers (QueryStats v)),
            RawInputDataSize (QueryStats v), FormatFloatE mem 32,
            PeakUserMemoryReservation (QueryStats v), TotalCpuTime (QueryStats v),
            TotalScheduledTime (QueryStats v)] \<and>
         (TotalDrivers (QueryStats v) = 7 \<longrightarrow> labelValues m ! 8 = ''7'') \<and>
         (\<forall>q. mem = Finite q \<and> \<bar>q\<bar> < 2 ^ 128 - 2 ^ 103 \<longrightarrow>
            is_scientific (labelValues m ! 10)) \<and>
         (\<forall>q. mem = Finite q \<and> 2 ^ 128 - 2 ^ 103 \<le> \<bar>q\<bar> \<longrightarrow>
            labelValues m ! 10 = (if q < 0 then ''-Inf'' else ''+Inf'')) \<and>
         (mem = NegZero \<longrightarrow> is_scientific (labelValues m ! 10)))"
    unfolding Let_def m_def v_def mem_def by blast
qed

text \<open>
  Witness: one running query that is scheduled, has 7 drivers and a cumulativeUserMemory
  of 1.5e9; and the same query with a cumulativeUserMemory of \<open>2 ^ 130\<close>.
\<close>

theorem per_query_gauge_witness:
  "(\<exists>s'. Exporter_Collect example_globals example_exporter
           (example_world ''5d'' [example_query (Finite 1500000000)]) empty_state = Inr s' \<and>
      length (emitted empty_state s') = 11 \<and>
      val (emitted empty_state s' ! 10) = Finite 1500000000 \<and>
      labelValues (emitted empty_state s' ! 10) =
        [''presto01'', ''20190101_000000_00001_abcde'', ''RUNNING'', ''true'', ''SELECT 1'',
         ''1.00ms'', ''2.00s'', ''1.50s'', ''7'', ''0B'', ''1.5E+09'', ''0B'', ''3.00ms'',
         ''4.00ms''] \<and>
      is_scientific (labelValues (emitted empty_state s' ! 10) ! 10)) \<and>
   (\<exists>s'. Exporter_Collect example_globals example_exporter
           (example_world ''5d'' [example_query (Finite (2 ^ 130))]) empty_state = Inr s' \<and>
      labelValues (emitted empty_state s' ! 10) ! 10 = ''+Inf'')"
proof -
  note t = per_query_gauge [OF example_stages, where g = example_globals and s = empty_state
      and k = 0]
  have q1: "CumulativeUserMemory (QueryStats (example_query x)) = x"
    "TotalDrivers (QueryStats (example_query x)) = 7" for x
    by (simp_all add: example_query_def)
  have k1: "0 < length [example_query (Finite 1500000000)]"
    and k2: "0 < length [example_query (Finite 1361129467683753853853498429727072845824)]"
    by simp_all
  from t [OF k1, of "''5d''", THEN conjunct1, THEN iffD2, OF example_valid(2)]
  obtain s1 where s1: "Exporter_Collect example_globals example_exporter
      (example_world ''5d'' [example_query (Finite 1500000000)]) empty_state = Inr s1" ..
  note a = t [OF k1, of "''5d''", THEN conjunct2, rule_format, OF s1]
  from a [THEN conjunct1] have n1: "length (emitted empty_state s1) = 11" by simp
  from a [THEN conjunct2, THEN conjunct2]
  have b: "val (emitted empty_state s1 ! 10) = Finite 1500000000 \<and>
      labelValues (emitted empty_state s1 ! 10) =
        [''presto01'', ''20190101_000000_00001_abcde'', ''RUNNING'', ''true'', ''SELECT 1'',
         ''1.00ms'', ''2.00s'', ''1.50s'', ''7'', ''0B'', ''1.5E+09'', ''0B'', ''3.00ms'',
         ''4.00ms''] \<and>
      is_scientific (labelValues (emitted empty_state s1 ! 10) ! 10)"
    by (simp add: Let_def q1 FormatFloatE_examples Itoa_7)
       (auto simp: example_query_def example_globals_def init_globals_def
          FormatFloatE_examples Itoa_7)
  from t [OF k2, of "''5d''", THEN conjunct1, THEN iffD2, OF example_valid(3)]
  obtain s2 where s2: "Exporter_Collect example_globals example_exporter
      (example_world ''5d'' [example_query (Finite 1361129467683753853853498429727072845824)])
      empty_state = Inr s2" ..
  from t [OF k2, of "''5d''", THEN conjunct2, rule_format, OF s2, THEN conjunct2, THEN conjunct2]
  have c: "labelValues (emitted empty_state s2 ! 10) ! 10 = ''+Inf''"
    by (simp add: Let_def q1 FormatFloatE_examples)
  have 1: "\<exists>s'. Exporter_Collect example_globals example_exporter
           (example_world ''5d'' [example_query (Finite 1500000000)]) empty_state = Inr s' \<and>
      length (emitted empty_state s') = 11 \<and>
      val (emitted empty_state s' ! 10) = Finite 1500000000 \<and>
      labelValues (emitted empty_state s' ! 10) =
        [''presto01'', ''20190101_000000_00001_abcde'', ''RUNNING'', ''true'', ''SELECT 1'',
         ''1.00ms'', ''2.00s'', ''1.50s'', ''7'', ''0B'', ''1.5E+09'', ''0B'', ''3.00ms'',
         ''4.00ms''] \<and>
      is_scientific (labelValues (emitted empty_state s' ! 10) ! 10)"
  proof (rule exI [where x = s1], intro conjI)
    show "Exporter_Collect example_globals example_exporter
        (example_world ''5d'' [example_query (Finite 1500000000)]) empty_state = Inr s1"
      by (rule s1)
    show "length (emitted empty_state s1) = 11"
      by (rule n1)
    show "val (emitted empty_state s1 ! 10) = Finite 1500000000"
      by (rule b [THEN conjunct1])
    show "labelValues (emitted empty_state s1 ! 10) =
        [''presto01'', ''20190101_000000_00001_abcde'', ''RUNNING'', ''true'', ''SELECT 1'',
         ''1.00ms'', ''2.00s'', ''1.50s'', ''7'', ''0B'', ''1.5E+09'', ''0B'', ''3.00ms'',
         ''4.00ms'']"
      by (rule b [THEN conjunct2, THEN conjunct1])
    show "is_scientific (labelValues (emitted empty_state s1 ! 10) ! 10)"
      by (rule b [THEN conjunct2, THEN conjunct2])
  qed
  have 2: "\<exists>s'. Exporter_Collect example_globals example_exporter
           (example_world ''5d'' [example_query (Finite (2 ^ 130))]) empty_state = Inr s' \<and>
      labelValues (emitted empty_state s' ! 10) ! 10 = ''+Inf''"
    using s2 c by (intro exI [where x = s2]) simp
  from 1 2 show ?thesis by (rule conjI)
qed

section \<open>The uptime gauge\<close>

text \<open>
  C4 as the specification states it fails: for the uptime \<^verbatim>\<open>5.2d\<close> the tenth metric is
  the uptime gauge, and its value is neither the number 5.2 nor the \<^verbatim>\<open>float64\<close> that Go
  writes \<^verbatim>\<open>5.2\<close>; it is the \<^verbatim>\<open>float32\<close> nearest to 5.2, since the exporter parses with
  bit size 32.
\<close>

theorem uptime_5_2d_is_not_5_2:
  "length (sent (Exporter_Collect example_globals example_exporter
             (example_world ''5.2d'' []) empty_state)) = 10 \<and>
   desc (sent (Exporter_Collect example_globals example_exporter
           (example_world ''5.2d'' []) empty_state) ! 9) = uptime \<and>
   val (sent (Exporter_Collect example_globals example_exporter
          (example_world ''5.2d'' []) empty_state) ! 9) \<noteq> Finite (52 / 10) \<and>
   val (sent (Exporter_Collect example_globals example_exporter
          (example_world ''5.2d'' []) empty_state) ! 9) \<noteq> fst (ParseFloat ''5.2'' 64)"
  by (simp add: sent_example [OF example_valid(1)] gauge_def TrimSuffix_examples
      ParseFloat_examples)

text \<open>
  C4, amended. When the three stages succeed and the call returns (which it does exactly
  when the label values are valid UTF-8), the tenth metric it has sent is the uptime gauge,
  and its value is what \<^verbatim>\<open>ParseFloat\<close> with bit size 32 gives for the uptime string without
  one trailing \<^verbatim>\<open>d\<close> (an uptime \<open>x @ ''d''\<close> is parsed as \<open>x\<close>, one without the suffix is
  parsed whole): 10 for \<^verbatim>\<open>10d\<close>, 0.5 for \<^verbatim>\<open>0.5d\<close>, and for \<^verbatim>\<open>5.2d\<close> the \<^verbatim>\<open>float32\<close>
  nearest to 5.2, which is 5452595 / 1048576 = 5.19999980926513671875.
\<close>

theorem uptime_gauge_value:
  assumes "cluster_stage e w = Inr c" "info_stage e w = Inr i" "query_stage e w = Inr qs"
  shows "((\<exists>s'. Exporter_Collect g e w s = Inr s') \<longleftrightarrow> valid_labels g qs) \<and>
     (\<forall>s'. Exporter_Collect g e w s = Inr s' \<longrightarrow>
       emitted s s' ! 9 =
         \<lparr>desc = uptime, valType = GaugeValue,
          val = fst (ParseFloat (TrimSuffix (Uptime i) ''d'') 32),
          labelValues = [hostname g]\<rparr> \<and>
       (\<forall>x. Uptime i = x @ ''d'' \<longrightarrow> val (emitted s s' ! 9) = fst (ParseFloat x 32)) \<and>
       (\<not> HasSuffix (Uptime i) ''d'' \<longrightarrow>
          val (emitted s s' ! 9) = fst (ParseFloat (Uptime i) 32)) \<and>
       (Uptime i = ''10d'' \<longrightarrow> val (emitted s s' ! 9) = Finite 10) \<and>
       (Uptime i = ''0.5d'' \<longrightarrow> val (emitted s s' ! 9) = Finite (1 / 2)) \<and>
       (Uptime i = ''5.2d'' \<longrightarrow> val (emitted s s' ! 9) = Finite (5452595 / 1048576)))"
proof (intro conjI allI impI)
  show "(\<exists>s'. Exporter_Collect g e w s = Inr s') \<longleftrightarrow> valid_labels g qs"
    by (rule Collect_returns [OF assms])
next
  fix s'
  assume r: "Exporter_Collect g e w s = Inr s'"
  note s' = Collect_Inr [OF assms r]
  show m: "emitted s s' ! 9 =
       \<lparr>desc = uptime, valType = GaugeValue,
        val = fst (ParseFloat (TrimSuffix (Uptime i) ''d'') 32),
        labelValues = [hostname g]\<rparr>"
    by (simp add: s' emitted_def gauge_def)
  have v: "val (emitted s s' ! 9) = fst (ParseFloat (TrimSuffix (Uptime i) ''d'') 32)"
    by (simp add: m)
  show "val (emitted s s' ! 9) = fst (ParseFloat x 32)" if "Uptime i = x @ ''d''" for x
    using that by (simp only: v) (simp add: TrimSuffix_append)
  show "val (emitted s s' ! 9) = fst (ParseFloat (Uptime i) 32)" if "\<not> HasSuffix (Uptime i) ''d''"
    using that by (simp only: v) (simp add: TrimSuffix_no_suffix)
  show "val (emitted s s' ! 9) = Finite 10" if "Uptime i = ''10d''"
    using that by (simp only: v) (simp add: TrimSuffix_examples ParseFloat_examples)
  show "val (emitted s s' ! 9) = Finite (1 / 2)" if "Uptime i = ''0.5d''"
    using that by (simp only: v) (simp add: TrimSuffix_examples ParseFloat_examples)
  show "val (emitted s s' ! 9) = Finite (5452595 / 1048576)" if "Uptime i = ''5.2d''"
    using that by (simp only: v) (simp add: TrimSuffix_examples ParseFloat_examples)
qed

text \<open>
  Witness: the example coordinator with the uptimes \<^verbatim>\<open>10d\<close>, \<^verbatim>\<open>0.5d\<close>, \<^verbatim>\<open>5.2d\<close> and \<^verbatim>\<open>7\<close>.
\<close>

theorem uptime_gauge_value_witness:
  "(\<exists>s'. Exporter_Collect example_globals example_exporter (example_world ''10d'' []) empty_state
           = Inr s' \<and> val (emitted empty_state s' ! 9) = Finite 10) \<and>
   (\<exists>s'. Exporter_Collect example_globals example_exporter (example_world ''0.5d'' []) empty_state
           = Inr s' \<and> val (emitted empty_state s' ! 9) = Finite (1 / 2)) \<and>
   (\<exists>s'. Exporter_Collect example_globals example_exporter (example_world ''5.2d'' []) empty_state
           = Inr s' \<and> val (emitted empty_state s' ! 9) = Finite (5452595 / 1048576)) \<and>
   (\<exists>s'. Exporter_Collect example_globals example_exporter (example_world ''7'' []) empty_state
           = Inr s' \<and> val (emitted empty_state s' ! 9) = fst (ParseFloat ''7'' 32))"
proof -
  note t = uptime_gauge_value [OF example_stages, where g = example_globals and s = empty_state
      and qs = "[]"]
  have u: "Uptime (example_info up) = up" for up
    by (simp add: example_info_def)
  from t [of "''10d''", THEN conjunct1, THEN iffD2, OF example_valid(1)]
  obtain s1 where s1: "Exporter_Collect example_globals example_exporter
      (example_world ''10d'' []) empty_state = Inr s1" ..
  note v1 = t [of "''10d''", THEN conjunct2, rule_format, OF s1, THEN conjunct2,
      THEN conjunct2, THEN conjunct2, THEN conjunct1, THEN mp, OF u]
  from t [of "''0.5d''", THEN conjunct1, THEN iffD2, OF example_valid(1)]
  obtain s2 where s2: "Exporter_Collect example_globals example_exporter
      (example_world ''0.5d'' []) empty_state = Inr s2" ..
  note v2 = t [of "''0.5d''", THEN conjunct2, rule_format, OF s2, THEN conjunct2,
      THEN conjunct2, THEN conjunct2, THEN conjunct2, THEN conjunct1, THEN mp, OF u]
  from t [of "''5.2d''", THEN conjunct1, THEN iffD2, OF example_valid(1)]
  obtain s3 where s3: "Exporter_Collect example_globals example_exporter
      (example_world ''5.2d'' []) empty_state = Inr s3" ..
  note v3 = t [of "''5.2d''", THEN conjunct2, rule_format, OF s3, THEN conjunct2,
      THEN conjunct2, THEN conjunct2, THEN conjunct2, THEN conjunct2, THEN mp, OF u]
  from t [of "''7''", THEN conjunct1, THEN iffD2, OF example_valid(1)]
  obtain s4 where s4: "Exporter_Collect example_globals example_exporter
      (example_world ''7'' []) empty_state = Inr s4" ..
  have n': "\<not> HasSuffix (Uptime (example_info ''7'')) ''d''"
    by (simp add: u HasSuffix_def)
  from t [of "''7''", THEN conjunct2, rule_format, OF s4, THEN conjunct2,
      THEN conjunct2, THEN conjunct1, THEN mp, OF n']
  have v4: "val (emitted empty_state s4 ! 9) = fst (ParseFloat ''7'' 32)"
    by (simp only: u)
  show ?thesis
  proof (intro conjI)
    show "\<exists>s'. Exporter_Collect example_globals example_exporter (example_world ''10d'' [])
        empty_state = Inr s' \<and> val (emitted empty_state s' ! 9) = Finite 10"
      by (rule exI [where x = s1]) (simp only: s1 v1 simp_thms)
    show "\<exists>s'. Exporter_Collect example_globals example_exporter (example_world ''0.5d'' [])
        empty_state = Inr s' \<and> val (emitted empty_state s' ! 9) = Finite (1 / 2)"
      by (rule exI [where x = s2]) (simp only: s2 v2 simp_thms)
    show "\<exists>s'. Exporter_Collect example_globals example_exporter (example_world ''5.2d'' [])
        empty_state = Inr s' \<and> val (emitted empty_state s' ! 9) = Finite (5452595 / 1048576)"
      by (rule exI [where x = s3]) (simp only: s3 v3 simp_thms)
    show "\<exists>s'. Exporter_Collect example_globals example_exporter (example_world ''7'' [])
        empty_state = Inr s' \<and> val (emitted empty_state s' ! 9) = fst (ParseFloat ''7'' 32)"
      by (rule exI [where x = s4]) (simp only: s4 v4 simp_thms)
  qed
qed

section \<open>No queries\<close>

text \<open>
  C5 as stated fails on a machine whose name is not valid UTF-8, here the single byte
  \<^verbatim>\<open>0xFF\<close>: the three stages succeed and the query list decodes to the empty list, but the
  first \<^verbatim>\<open>MustNewConstMetric\<close> refuses the hostname as a label value and panics, and the call
  has sent neither the cluster gauges nor the uptime gauge.
\<close>

theorem empty_query_list_bad_hostname:
  "cluster_stage example_exporter (example_world ''5d'' []) = Inr example_cluster \<and>
   info_stage example_exporter (example_world ''5d'' []) = Inr (example_info ''5d'') \<and>
   query_stage example_exporter (example_world ''5d'' []) = Inr [] \<and>
   Exporter_Collect (init_globals ([CHR 0xFF], None)) example_exporter
     (example_world ''5d'' []) empty_state = Inl (errLabelValueNotUTF8 [CHR 0xFF]) \<and>
   sent (Exporter_Collect (init_globals ([CHR 0xFF], None)) example_exporter
     (example_world ''5d'' []) empty_state) = []"
  by (simp add: example_stages example_panic sent_Inl)

text \<open>
  C5, amended. When the cluster and info stages succeed and the query list decodes to the
  empty list, the call returns exactly when the hostname is valid UTF-8, and then it has
  sent exactly ten metrics, the nine cluster gauges and the uptime gauge with their usual
  values, and none of them is a per-query gauge. When the hostname is not valid UTF-8 the
  call panics with the error of the refused label value.
\<close>

theorem empty_query_list:
  assumes "cluster_stage e w = Inr c" "info_stage e w = Inr i" "query_stage e w = Inr []"
  shows "((\<exists>s'. Exporter_Collect g e w s = Inr s') \<longleftrightarrow> ValidString (hostname g)) \<and>
     (\<forall>s'. Exporter_Collect g e w s = Inr s' \<longrightarrow>
       emitted s s' =
         [gauge runningQueries (RunningQueries c) [hostname g],
          gauge blockedQueries (BlockedQueries c) [hostname g],
          gauge queuedQueries (QueuedQueries c) [hostname g],
          gauge activeWorkers (ActiveWorkers c) [hostname g],
          gauge runningDrivers (RunningDrivers c) [hostname g],
          gauge reservedMemory (ReservedMemory c) [hostname g],
          gauge totalInputRows (TotalInputRows c) [hostname g],
          gauge totalInputBytes (TotalInputBytes c) [hostname g],
          gauge totalCpuTimeSecs (TotalCpuTimeSecs c) [hostname g],
          gauge uptime (fst (ParseFloat (TrimSuffix (Uptime i) ''d'') 32)) [hostname g]] \<and>
       length (emitted s s') = 10 \<and>
       filter (\<lambda>m. desc m = querys) (emitted s s') = []) \<and>
     (\<not> ValidString (hostname g) \<longrightarrow>
        Exporter_Collect g e w s = Inl (errLabelValueNotUTF8 (hostname g)))"
proof (intro conjI allI impI)
  show "(\<exists>s'. Exporter_Collect g e w s = Inr s') \<longleftrightarrow> ValidString (hostname g)"
    using Collect_returns [OF assms, of g s] by (simp add: valid_labels_def)
next
  fix s'
  assume r: "Exporter_Collect g e w s = Inr s'"
  note s' = Collect_Inr [OF assms r]
  show e: "emitted s s' =
         [gauge runningQueries (RunningQueries c) [hostname g],
          gauge blockedQueries (BlockedQueries c) [hostname g],
          gauge queuedQueries (QueuedQueries c) [hostname g],
          gauge activeWorkers (ActiveWorkers c) [hostname g],
          gauge runningDrivers (RunningDrivers c) [hostname g],
          gauge reservedMemory (ReservedMemory c) [hostname g],
          gauge totalInputRows (TotalInputRows c) [hostname g],
          gauge totalInputBytes (TotalInputBytes c) [hostname g],
          gauge totalCpuTimeSecs (TotalCpuTimeSecs c) [hostname g],
          gauge uptime (fst (ParseFloat (TrimSuffix (Uptime i) ''d'') 32)) [hostname g]]"
    by (simp add: s' emitted_def)
  show "length (emitted s s') = 10"
    by (simp add: e)
  show "filter (\<lambda>m. desc m = querys) (emitted s s') = []"
    by (simp add: e gauge_def runningQueries_def
      blockedQueries_def queuedQueries_def activeWorkers_def runningDrivers_def
      reservedMemory_def totalInputRows_def totalInputBytes_def totalCpuTimeSecs_def
      uptime_def querys_def NewDesc_def)
next
  assume "\<not> ValidString (hostname g)"
  then show "Exporter_Collect g e w s = Inl (errLabelValueNotUTF8 (hostname g))"
    by (rule Collect_panic [OF assms])
qed

text \<open>
  Witness: the example coordinator with no query, scraped on the machine \<^verbatim>\<open>presto01\<close> and on
  the machine whose name is the byte \<^verbatim>\<open>0xFF\<close>.
\<close>

theorem empty_query_list_witness:
  "(\<exists>s'. Exporter_Collect example_globals example_exporter (example_world ''5d'' []) empty_state
          = Inr s' \<and>
     length (emitted empty_state s') = 10 \<and>
     filter (\<lambda>m. desc m = querys) (emitted empty_state s') = []) \<and>
   Exporter_Collect (init_globals ([CHR 0xFF], None)) example_exporter
     (example_world ''5d'' []) empty_state = Inl (errLabelValueNotUTF8 [CHR 0xFF])"
proof -
  note t = empty_query_list [OF example_stages [of "''5d''" "[]"], where s = empty_state]
  have h: "ValidString (hostname example_globals)"
    by (simp add: example_globals_def init_globals_def ascii_ValidString)
  from t [of example_globals, THEN conjunct1, THEN iffD2, OF h]
  obtain s' where s': "Exporter_Collect example_globals example_exporter
      (example_world ''5d'' []) empty_state = Inr s'" ..
  note q = t [of example_globals, THEN conjunct2, THEN conjunct1, rule_format, OF s']
  note p = q [THEN conjunct2, THEN conjunct1] q [THEN conjunct2, THEN conjunct2]
  have 1: "\<exists>s'. Exporter_Collect example_globals example_exporter (example_world ''5d'' [])
      empty_state = Inr s' \<and> length (emitted empty_state s') = 10 \<and>
      filter (\<lambda>m. desc m = querys) (emitted empty_state s') = []"
    by (rule exI [where x = s']) (simp only: s' p simp_thms)
  have "\<not> ValidString (hostname (init_globals ([CHR 0xFF], None)))"
    by (simp add: init_globals_def)
  from t [of "init_globals ([CHR 0xFF], None)", THEN conjunct2, THEN conjunct2, rule_format,
      OF this]
  have 2: "Exporter_Collect (init_globals ([CHR 0xFF], None)) example_exporter
     (example_world ''5d'' []) empty_state = Inl (errLabelValueNotUTF8 [CHR 0xFF])"
    by (simp add: init_globals_def)
  from 1 2 show ?thesis by (rule conjI)
qed

section \<open>What a failing stage logs\<close>

text \<open>
  C6. The coordinator answers the cluster URL with status 500. The call makes that one
  request, sends no metric, and logs one line at error level; the line is the rendering of
  a nil error, \<^verbatim>\<open>%!s(<nil>)\<close>, since \<^verbatim>\<open>err\<close> is nil after a successful \<^verbatim>\<open>http.Get\<close>. A
  transport error on the same URL is logged with its message.
\<close>

theorem status_failure_logs_nil:
  "Exporter_Collect example_globals example_exporter
     ((example_world ''5d'' [])\<lparr>http_Get := (http_Get (example_world ''5d'' []))
        (''http://localhost:8080/v1/cluster'' := Inr \<lparr>StatusCode = 500, Body = Inr []\<rparr>)\<rparr>)
     empty_state =
   Inr \<lparr>requests = [''http://localhost:8080/v1/cluster''],
        logged = [\<lparr>level = ErrorLevel, msg = ''%!s(<nil>)''\<rparr>],
        ch = []\<rparr> \<and>
   Exporter_Collect example_globals example_exporter
     ((example_world ''5d'' [])\<lparr>http_Get := (http_Get (example_world ''5d'' []))
        (''http://localhost:8080/v1/cluster'' := Inl (errorString ''connection refused''))\<rparr>)
     empty_state =
   Inr \<lparr>requests = [''http://localhost:8080/v1/cluster''],
        logged = [\<lparr>level = ErrorLevel, msg = ''connection refused''\<rparr>],
        ch = []\<rparr>"
  by (simp add: Exporter_Collect_def example_world_def example_exporter_def serving_def
      ok_def empty_state_def log_Errorf_s_def do_Get_def Sprintf_s_def)

section \<open>The descriptors\<close>

text \<open>
  C7. \<^verbatim>\<open>Describe\<close> takes no part of the coordinator's answers: it sends exactly eleven
  descriptors, the nine cluster gauges, the uptime and the per-query gauge in this order,
  after whatever the channel already held, and their full names are the namespace prefix
  \<^verbatim>\<open>presto_cluster_\<close> joined with the eleven metric names.
\<close>

theorem Describe_eleven_descriptors:
  "Exporter_Describe e [] =
     [runningQueries, blockedQueries, queuedQueries, activeWorkers, runningDrivers,
      reservedMemory, totalInputRows, totalInputBytes, totalCpuTimeSecs, uptime, querys] \<and>
   length (Exporter_Describe e []) = 11 \<and>
   map fqName (Exporter_Describe e []) =
     map (\<lambda>name. ''presto_cluster_'' @ name)
       [''running_queries'', ''blocked_queries'', ''queued_queries'', ''active_workers'',
        ''running_drivers'', ''reserved_memory'', ''total_input_rows'', ''total_input_bytes'',
        ''total_cpu_time_secs'', ''uptime'', ''querys''] \<and>
   distinct (map fqName (Exporter_Describe e [])) \<and>
   Exporter_Describe e descs = descs @ Exporter_Describe e []"
  by (simp add: Exporter_Describe_def runningQueries_def blockedQueries_def queuedQueries_def
      activeWorkers_def runningDrivers_def reservedMemory_def totalInputRows_def
      totalInputBytes_def totalCpuTimeSecs_def uptime_def querys_def NewDesc_def
      BuildFQName_def Join2_def namespace_def)

section \<open>The hostname label\<close>

text \<open>
  C8. The package variable \<open>hostname\<close> is the name the operating system reported when the
  package was initialised; a call of \<^verbatim>\<open>Collect\<close> does not ask the operating system again
  (its result is the same whatever \<^verbatim>\<open>os.Hostname()\<close> would answer by then); and every metric
  that a call sends, cluster gauge, uptime gauge or per-query gauge, carries that hostname
  as the value of its first label, whose name is \<^verbatim>\<open>hostname\<close>.
\<close>

theorem hostname_on_every_sample:
  "hostname (init_globals (name, err)) = name \<and>
   Exporter_Collect g e (w\<lparr>os_Hostname := h\<rparr>) s = Exporter_Collect g e w s \<and>
   (Exporter_Collect g e w s = Inr s' \<longrightarrow>
      (\<forall>m \<in> set (emitted s s').
         labelValues m \<noteq> [] \<and> hd (labelValues m) = hostname g \<and>
         variableLabels (desc m) \<noteq> [] \<and> hd (variableLabels (desc m)) = ''hostname''))"
proof (intro conjI impI)
  show "hostname (init_globals (name, err)) = name"
    by (simp add: init_globals_def)
  have q: "Collect_query g e (w\<lparr>os_Hostname := h\<rparr>) c i t = Collect_query g e w c i t"
    for c i t
    by (simp add: Collect_query_def cong: sum.case_cong if_cong)
  have i: "Collect_info g e (w\<lparr>os_Hostname := h\<rparr>) c t = Collect_info g e w c t" for c t
    by (simp add: Collect_info_def q cong: sum.case_cong if_cong)
  show "Exporter_Collect g e (w\<lparr>os_Hostname := h\<rparr>) s = Exporter_Collect g e w s"
    by (simp add: Exporter_Collect_def i cong: sum.case_cong if_cong)
  assume r: "Exporter_Collect g e w s = Inr s'"
  show "\<forall>m \<in> set (emitted s s').
         labelValues m \<noteq> [] \<and> hd (labelValues m) = hostname g \<and>
         variableLabels (desc m) \<noteq> [] \<and> hd (variableLabels (desc m)) = ''hostname''"
  proof (cases "cluster_stage e w")
    case (Inl f)
    with r show ?thesis by (auto simp: Collect_fail_cluster emitted_def)
  next
    case c: (Inr c)
    show ?thesis
    proof (cases "info_stage e w")
      case (Inl f)
      with r c show ?thesis by (auto simp: Collect_fail_info emitted_def)
    next
      case i: (Inr i)
      show ?thesis
      proof (cases "query_stage e w")
        case (Inl f)
        with r c i show ?thesis by (auto simp: Collect_fail_query emitted_def)
      next
        case (Inr qs)
        have "emitted s s' =
          [gauge runningQueries (RunningQueries c) [hostname g],
           gauge blockedQueries (BlockedQueries c) [hostname g],
           gauge queuedQueries (QueuedQueries c) [hostname g],
           gauge activeWorkers (ActiveWorkers c) [hostname g],
           gauge runningDrivers (RunningDrivers c) [hostname g],
           gauge reservedMemory (ReservedMemory c) [hostname g],
           gauge totalInputRows (TotalInputRows c) [hostname g],
           gauge totalInputBytes (TotalInputBytes c) [hostname g],
           gauge totalCpuTimeSecs (TotalCpuTimeSecs c) [hostname g],
           gauge uptime (fst (ParseFloat (TrimSuffix (Uptime i) ''d'') 32)) [hostname g]] @
          map (\<lambda>v. gauge querys (CumulativeUserMemory (QueryStats v)) (labels g v)) qs"
          by (simp add: Collect_Inr [OF c i Inr r] emitted_def)
        then show ?thesis
          by (auto simp: gauge_def one_label querys_labels labels_def)
      qed
    qed
  qed
qed

theorem hostname_on_every_sample_witness:
  "\<exists>s'. Exporter_Collect example_globals example_exporter
          (example_world ''5d'' [example_query (Finite 1500000000)]) empty_state = Inr s' \<and>
     length (emitted empty_state s') = 11 \<and>
     (\<forall>m \<in> set (emitted empty_state s'). hd (labelValues m) = ''presto01'')"
proof -
  obtain s' where s': "Exporter_Collect example_globals example_exporter
      (example_world ''5d'' [example_query (Finite 1500000000)]) empty_state = Inr s'"
    and n: "length (emitted empty_state s') = 11"
    by (simp add: Collect_ok [OF example_stages example_valid(2)] emitted_def empty_state_def)
  from hostname_on_every_sample [where g = example_globals and e = example_exporter
      and w = "example_world ''5d'' [example_query (Finite 1500000000)]"
      and s = empty_state and s' = s'] s'
  have "\<forall>m \<in> set (emitted empty_state s'). hd (labelValues m) = ''presto01''"
    by (simp add: example_globals_def init_globals_def)
  with s' n show ?thesis by blast
qed

section \<open>An uptime that does not parse\<close>

text \<open>
  C10 as stated fails in two ways. The uptime \<^verbatim>\<open>1e39d\<close> fails to parse after the \<^verbatim>\<open>d\<close> is
  stripped (\<^verbatim>\<open>ParseFloat\<close> returns the error \<open>ErrRange\<close>, the number being beyond the
  \<^verbatim>\<open>float32\<close> range), and the uptime gauge that the call sends has the value \<open>+Inf\<close>, not 0.
  And with the uptime \<^verbatim>\<open>3h\<close> on a machine whose name is not valid UTF-8 (the byte \<^verbatim>\<open>0xFF\<close>)
  the call panics at its first send and sends no uptime gauge.
\<close>

theorem uptime_out_of_range_is_Inf:
  "snd (ParseFloat (TrimSuffix ''1e39d'' ''d'') 32) = Some ErrRange \<and>
   length (sent (Exporter_Collect example_globals example_exporter
             (example_world ''1e39d'' []) empty_state)) = 10 \<and>
   desc (sent (Exporter_Collect example_globals example_exporter
           (example_world ''1e39d'' []) empty_state) ! 9) = uptime \<and>
   val (sent (Exporter_Collect example_globals example_exporter
          (example_world ''1e39d'' []) empty_state) ! 9) = PosInf \<and>
   val (sent (Exporter_Collect example_globals example_exporter
          (example_world ''1e39d'' []) empty_state) ! 9) \<noteq> Finite 0 \<and>
   snd (ParseFloat (TrimSuffix ''3h'' ''d'') 32) = Some ErrSyntax \<and>
   Exporter_Collect (init_globals ([CHR 0xFF], None)) example_exporter
     (example_world ''3h'' []) empty_state = Inl (errLabelValueNotUTF8 [CHR 0xFF]) \<and>
   sent (Exporter_Collect (init_globals ([CHR 0xFF], None)) example_exporter
     (example_world ''3h'' []) empty_state) = []"
  by (simp add: sent_example [OF example_valid(1)] gauge_def TrimSuffix_examples
      ParseFloat_examples example_panic sent_Inl)

text \<open>
  C10, amended. The three stages having succeeded, the call returns exactly when the label
  values are valid UTF-8, whatever the uptime string. When it returns and the uptime string
  without one trailing \<^verbatim>\<open>d\<close> is not well formed as a floating-point number (\<^verbatim>\<open>ParseFloat\<close>
  returns \<open>ErrSyntax\<close>, as for \<^verbatim>\<open>3h\<close>, \<^verbatim>\<open>2d1h\<close> and the empty string), the error has been
  dropped: nothing is logged, the uptime gauge is sent with the value 0, and the scrape is
  complete, nine cluster gauges, the uptime gauge and one gauge for each query. When the
  string is well formed but out of range (\<open>ErrRange\<close>), the error is dropped as well and the
  value sent is an infinity.
\<close>

theorem unparsable_uptime_is_zero:
  assumes "cluster_stage e w = Inr c" "info_stage e w = Inr i" "query_stage e w = Inr qs"
  shows "((\<exists>s'. Exporter_Collect g e w s = Inr s') \<longleftrightarrow> valid_labels g qs) \<and>
     (\<forall>s'. Exporter_Collect g e w s = Inr s' \<longrightarrow>
       logged s' = logged s \<and>
       length (emitted s s') = 10 + length qs \<and>
       desc (emitted s s' ! 9) = uptime \<and>
       (snd (ParseFloat (TrimSuffix (Uptime i) ''d'') 32) = Some ErrSyntax \<longrightarrow>
          val (emitted s s' ! 9) = Finite 0) \<and>
       (snd (ParseFloat (TrimSuffix (Uptime i) ''d'') 32) = Some ErrRange \<longrightarrow>
          val (emitted s s' ! 9) = PosInf \<or> val (emitted s s' ! 9) = NegInf) \<and>
       (Uptime i = ''3h'' \<or> Uptime i = ''2d1h'' \<or> Uptime i = [] \<longrightarrow>
          snd (ParseFloat (TrimSuffix (Uptime i) ''d'') 32) = Some ErrSyntax \<and>
          val (emitted s s' ! 9) = Finite 0))"
proof (intro conjI allI impI)
  show "(\<exists>s'. Exporter_Collect g e w s = Inr s') \<longleftrightarrow> valid_labels g qs"
    by (rule Collect_returns [OF assms])
next
  fix s'
  assume r: "Exporter_Collect g e w s = Inr s'"
  note s' = Collect_Inr [OF assms r]
  show "logged s' = logged s" and "length (emitted s s') = 10 + length qs"
    and "desc (emitted s s' ! 9) = uptime"
    by (simp_all add: s' emitted_def gauge_def)
  have v: "val (emitted s s' ! 9) = fst (ParseFloat (TrimSuffix (Uptime i) ''d'') 32)"
    by (simp add: s' emitted_def gauge_def)
  show "val (emitted s s' ! 9) = Finite 0"
    if "snd (ParseFloat (TrimSuffix (Uptime i) ''d'') 32) = Some ErrSyntax"
    using that by (simp only: v) (simp add: ParseFloat_ErrSyntax)
  show "val (emitted s s' ! 9) = PosInf \<or> val (emitted s s' ! 9) = NegInf"
    if "snd (ParseFloat (TrimSuffix (Uptime i) ''d'') 32) = Some ErrRange"
    using that by (simp only: v) (simp add: ParseFloat_ErrRange)
  assume u: "Uptime i = ''3h'' \<or> Uptime i = ''2d1h'' \<or> Uptime i = []"
  then show "snd (ParseFloat (TrimSuffix (Uptime i) ''d'') 32) = Some ErrSyntax"
    by (auto simp: TrimSuffix_examples ParseFloat_examples)
  from u show "val (emitted s s' ! 9) = Finite 0"
    by (simp only: v) (auto simp: TrimSuffix_examples ParseFloat_examples)
qed

text \<open>
  Witness: the example coordinator with one query and the uptime \<^verbatim>\<open>3h\<close>, and with no query
  and the uptime \<^verbatim>\<open>1e39d\<close>.
\<close>

theorem unparsable_uptime_is_zero_witness:
  "(\<exists>s'. Exporter_Collect example_globals example_exporter
           (example_world ''3h'' [example_query (Finite 1500000000)]) empty_state = Inr s' \<and>
      logged s' = [] \<and> length (emitted empty_state s') = 11 \<and>
      val (emitted empty_state s' ! 9) = Finite 0) \<and>
   (\<exists>s'. Exporter_Collect example_globals example_exporter
           (example_world ''1e39d'' []) empty_state = Inr s' \<and>
      logged s' = [] \<and> length (emitted empty_state s') = 10 \<and>
      (val (emitted empty_state s' ! 9) = PosInf \<or> val (emitted empty_state s' ! 9) = NegInf))"
proof -
  note t = unparsable_uptime_is_zero [OF example_stages,
      where g = example_globals and s = empty_state]
  have u: "Uptime (example_info up) = up" for up
    by (simp add: example_info_def)
  have e3: "Uptime (example_info ''3h'') = ''3h'' \<or> Uptime (example_info ''3h'') = ''2d1h'' \<or>
      Uptime (example_info ''3h'') = []"
    by (simp add: u)
  have e39: "snd (ParseFloat (TrimSuffix (Uptime (example_info ''1e39d'')) ''d'') 32) = Some ErrRange"
    by (simp add: u TrimSuffix_examples ParseFloat_examples)
  from t [of "''3h''" "[example_query (Finite 1500000000)]", THEN conjunct1, THEN iffD2,
      OF example_valid(2)]
  obtain s1 where s1: "Exporter_Collect example_globals example_exporter
      (example_world ''3h'' [example_query (Finite 1500000000)]) empty_state = Inr s1" ..
  note q1 = t [of "''3h''" "[example_query (Finite 1500000000)]", THEN conjunct2, rule_format,
      OF s1]
  from q1 [THEN conjunct1] have l1: "logged s1 = []"
    by (simp add: empty_state_def)
  from q1 [THEN conjunct2, THEN conjunct1] have n1: "length (emitted empty_state s1) = 11"
    by simp
  note v1 = q1 [THEN conjunct2, THEN conjunct2, THEN conjunct2, THEN conjunct2, THEN conjunct2,
      THEN mp, OF e3, THEN conjunct2]
  from t [of "''1e39d''" "[]", THEN conjunct1, THEN iffD2, OF example_valid(1)]
  obtain s2 where s2: "Exporter_Collect example_globals example_exporter
      (example_world ''1e39d'' []) empty_state = Inr s2" ..
  note q2 = t [of "''1e39d''" "[]", THEN conjunct2, rule_format, OF s2]
  from q2 [THEN conjunct1] have l2: "logged s2 = []"
    by (simp add: empty_state_def)
  from q2 [THEN conjunct2, THEN conjunct1] have n2: "length (emitted empty_state s2) = 10"
    by simp
  note v2 = q2 [THEN conjunct2, THEN conjunct2, THEN conjunct2, THEN conjunct2, THEN conjunct1,
      THEN mp, OF e39]
  have 1: "\<exists>s'. Exporter_Collect example_globals example_exporter
           (example_world ''3h'' [example_query (Finite 1500000000)]) empty_state = Inr s' \<and>
      logged s' = [] \<and> length (emitted empty_state s') = 11 \<and>
      val (emitted empty_state s' ! 9) = Finite 0"
    by (rule exI [where x = s1]) (simp only: s1 l1 n1 v1 simp_thms)
  have 2: "\<exists>s'. Exporter_Collect example_globals example_exporter
           (example_world ''1e39d'' []) empty_state = Inr s' \<and>
      logged s' = [] \<and> length (emitted empty_state s') = 10 \<and>
      (val (emitted empty_state s' ! 9) = PosInf \<or> val (emitted empty_state s' ! 9) = NegInf)"
    using v2 by (intro exI [where x = s2] conjI) (simp_all only: s2 l2 n2 simp_thms)
  from 1 2 show ?thesis by (rule conjI)
qed

end
